theory Spec2Isabelle
  imports Main "HOL-Library.Char_ord" "HOL-Library.List_Lexorder" "HOL-Library.AList"
begin

section \<open>Data model\<close>

text \<open>
  The workflow (\<^verbatim>\<open>adb-workflow.py\<close>) scrapes listings with \<^verbatim>\<open>ADBScraper\<close>
  (\<^verbatim>\<open>adb_scraper.py\<close>), writes each non-empty result as a CSV file, looks for the latest
  earlier file of the same search, reports the titles that are new, and sends one e-mail.

  Exceptions are values: a function of the source that can raise returns \<open>exn + 'a\<close>,
  and every \<^verbatim>\<open>try/except Exception\<close> of the source is a case split on that sum.
\<close>

datatype exn =
    KeyError string
  | OSError string
  | ParserError string
  | WebDriverException string
  | ScheduleValueError string

text \<open>\<^verbatim>\<open>str(e)\<close>: a \<^verbatim>\<open>KeyError\<close> prints its key quoted, the others their message.\<close>

fun str :: "exn \<Rightarrow> string" where
  "str (KeyError k) = [CHR 0x27] @ k @ [CHR 0x27]"
| "str (OSError m) = m"
| "str (ParserError m) = m"
| "str (WebDriverException m) = m"
| "str (ScheduleValueError m) = m"

text \<open>
  A listing is the \<^verbatim>\<open>dict\<close> of strings the scraper builds (\<^verbatim>\<open>"Title"\<close>, \<^verbatim>\<open>"Link"\<close>,
  \<^verbatim>\<open>"Status"\<close> and the metadata keys). A cell of a pandas \<^verbatim>\<open>DataFrame\<close> is a string or a
  number: the frames the scraper builds hold strings, a frame read from a CSV file holds
  numbers where \<^verbatim>\<open>pd.read_csv\<close> has inferred a numeric column. A string never equals a
  number. A \<^verbatim>\<open>DataFrame\<close> is its column labels and its rows in order; a cell a row has no
  value for reads as \<open>None\<close> (pandas' NaN, the one object \<^verbatim>\<open>np.nan\<close>: in a \<^verbatim>\<open>set\<close> and for
  \<^verbatim>\<open>isin\<close> two missing cells are the same value).
\<close>

type_synonym item = "(string \<times> string) list"

datatype cell = Str string | Num int

type_synonym row = "(string \<times> cell) list"

record dataframe =
  columns :: "string list"
  rows :: "row list"

text \<open>\<^verbatim>\<open>pd.DataFrame()\<close>: no columns, no rows.\<close>

definition DataFrame :: dataframe where
  "DataFrame = \<lparr>columns = [], rows = []\<rparr>"

text \<open>\<^verbatim>\<open>pd.DataFrame(results)\<close> for a list of dicts: the columns are the keys in order of
  first appearance.\<close>

definition from_records :: "item list \<Rightarrow> dataframe" where
  "from_records rs =
     \<lparr>columns = rev (remdups (rev (concat (map (map fst) rs)))),
      rows = map (map (\<lambda>kv. (fst kv, Str (snd kv)))) rs\<rparr>"

text \<open>\<^verbatim>\<open>df.empty\<close>: true when an axis has length 0.\<close>

definition df_empty :: "dataframe \<Rightarrow> bool" where
  "df_empty df \<longleftrightarrow> columns df = [] \<or> rows df = []"

text \<open>\<^verbatim>\<open>len(df)\<close>.\<close>

definition len :: "dataframe \<Rightarrow> nat" where
  "len df = length (rows df)"

text \<open>\<^verbatim>\<open>df[c].values\<close>: the cells of column \<open>c\<close>, or \<^verbatim>\<open>KeyError\<close> when there is no such
  column.\<close>

definition getitem :: "dataframe \<Rightarrow> string \<Rightarrow> exn + cell option list" where
  "getitem df c =
     (if c \<in> set (columns df) then Inr (map (\<lambda>r. map_of r c) (rows df))
      else Inl (KeyError c))"

subsection \<open>Configuration\<close>

record email_config =
  enabled :: bool
  smtp_server :: string
  smtp_port :: nat
  sender_email :: string
  sender_password :: string
  recipients :: "string list"

text \<open>One entry of \<^verbatim>\<open>search_filters\<close>; a key the JSON object lacks is \<open>None\<close>.\<close>

record filter_spec =
  name :: "string option"
  country :: "string option"
  status :: "string option"
  sector :: "string option"

record config =
  email :: email_config
  tenders :: "filter_spec list"
  projects :: "filter_spec list"
  schedule_frequency :: string
  schedule_time :: string
  output_dir :: string

subsection \<open>The world the program runs in\<close>

datatype category = Tenders | Projects

text \<open>A file is a CSV, given by the DataFrame \<^verbatim>\<open>pd.read_csv\<close> parses it to, or something
  \<^verbatim>\<open>pd.read_csv\<close> cannot read.\<close>

datatype file_content = Csv dataframe | Unparseable

text \<open>What the program does to the outside, in order: the browser it starts (\<open>Init\<close>),
  the searches it issues, the calls of \<^verbatim>\<open>send_email_notification\<close> (subject, body,
  attachments), the messages handed to the SMTP server, and the calls of
  \<^verbatim>\<open>driver.quit()\<close> (\<open>Quit\<close>; whether the call succeeds shows in \<open>browsers\<close> below).\<close>

datatype event =
    Init
  | Fetch category "string option" "string option" "string option"
  | Notify string string "string list"
  | Smtp email_config string string "string list"
  | Quit

text \<open>
  \<^item> \<open>config_file\<close>: what \<^verbatim>\<open>json.load\<close> reads from \<^verbatim>\<open>config.json\<close>, \<open>None\<close> when the
    file is missing or not JSON;
  \<^item> \<open>dirs\<close>: the entries (name, content) of each directory, in the order
    \<^verbatim>\<open>os.listdir\<close> returns them;
  \<^item> \<open>now\<close>: \<^verbatim>\<open>datetime.now().strftime("%Y%m%d_%H%M%S")\<close>;
  \<^item> \<open>calls\<close>: how many calls to the outside were made so far; \<open>fault\<close> says which of
    them raises (starting the browser, creating or listing a directory, writing a file,
    sending mail, quitting the browser), \<open>page\<close> what the scrape issued as that call
    extracts from the site, or the exception it hits;
  \<^item> \<open>to_csv_file\<close>: the file \<^verbatim>\<open>results.to_csv(filename, index=False)\<close> writes for a
    frame, given by what \<^verbatim>\<open>pd.read_csv\<close> makes of it afterwards; pandas is not part of
    the program, so this is left to the world;
  \<^item> \<open>browsers\<close>: the browser sessions that were started and not released;
  \<^item> \<open>log\<close>: the events so far.
\<close>

record world =
  config_file :: "config option"
  dirs :: "string \<Rightarrow> (string \<times> file_content) list"
  now :: string
  calls :: nat
  fault :: "nat \<Rightarrow> exn option"
  page :: "nat \<Rightarrow> exn + item list"
  to_csv_file :: "dataframe \<Rightarrow> file_content"
  browsers :: nat
  log :: "event list"

text \<open>\<^verbatim>\<open>str.rstrip("/")\<close>, and how a directory is looked up: a trailing separator does
  not change the directory a path names.\<close>

definition rstrip_sep :: "string \<Rightarrow> string" where
  "rstrip_sep p = rev (dropWhile (\<lambda>c. c = CHR ''/'') (rev p))"

definition dir_key :: "string \<Rightarrow> string" where
  "dir_key d = (if rstrip_sep d = [] then d else rstrip_sep d)"

text \<open>\<^verbatim>\<open>os.path.split\<close>: the directory and the name, at the last separator; trailing
  separators of the directory are stripped unless it is the root.\<close>

definition split_path :: "string \<Rightarrow> string \<times> string" where
  "split_path p =
     (dir_key (rev (dropWhile (\<lambda>c. c \<noteq> CHR ''/'') (rev p))),
      rev (takeWhile (\<lambda>c. c \<noteq> CHR ''/'') (rev p)))"

definition basename :: "string \<Rightarrow> string" where
  "basename p = snd (split_path p)"

definition lookup_file :: "world \<Rightarrow> string \<Rightarrow> file_content option" where
  "lookup_file w p = map_of (dirs w (fst (split_path p))) (snd (split_path p))"

text \<open>\<^verbatim>\<open>os.path.exists\<close>.\<close>

definition exists :: "world \<Rightarrow> string \<Rightarrow> bool" where
  "exists w p \<longleftrightarrow> lookup_file w p \<noteq> None"

text \<open>\<^verbatim>\<open>pd.read_csv\<close>.\<close>

definition read_csv :: "world \<Rightarrow> string \<Rightarrow> exn + dataframe" where
  "read_csv w p =
     (case lookup_file w p of
        None \<Rightarrow> Inl (OSError p)
      | Some Unparseable \<Rightarrow> Inl (ParserError p)
      | Some (Csv df) \<Rightarrow> Inr df)"

section \<open>compare\_with\_previous\<close>

text \<open>The body of the \<^verbatim>\<open>try\<close>: \<open>Inl\<close> is the exception it raises.\<close>

definition compare_try :: "dataframe \<Rightarrow> string \<Rightarrow> world \<Rightarrow> exn + dataframe" where
  "compare_try current_df previous_file w =
     (if exists w previous_file then
        (case read_csv w previous_file of
           Inl e \<Rightarrow> Inl e
         | Inr previous_df \<Rightarrow>
            (case getitem current_df ''Title'' of
               Inl e \<Rightarrow> Inl e
             | Inr current_titles \<Rightarrow>
                (case getitem previous_df ''Title'' of
                   Inl e \<Rightarrow> Inl e
                 | Inr previous_titles \<Rightarrow>
                    (let current_ids = set current_titles;
                         previous_ids = set previous_titles;
                         new_ids = current_ids - previous_ids
                     in Inr (current_df\<lparr>rows :=
                          filter (\<lambda>r. map_of r ''Title'' \<in> new_ids) (rows current_df)\<rparr>)))))
      else Inr current_df)"

text \<open>\<^verbatim>\<open>except Exception\<close>: the error is logged and an empty DataFrame returned.\<close>

definition compare_with_previous :: "dataframe \<Rightarrow> string \<Rightarrow> world \<Rightarrow> dataframe" where
  "compare_with_previous current_df previous_file w =
     (case compare_try current_df previous_file w of
        Inl e \<Rightarrow> DataFrame
      | Inr new_items \<Rightarrow> new_items)"

section \<open>String helpers\<close>

text \<open>\<^verbatim>\<open>s.startswith(p)\<close> and \<^verbatim>\<open>s.endswith(x)\<close>.\<close>

definition startswith :: "string \<Rightarrow> string \<Rightarrow> bool" where
  "startswith s p \<longleftrightarrow> take (length p) s = p"

definition endswith :: "string \<Rightarrow> string \<Rightarrow> bool" where
  "endswith s x \<longleftrightarrow> length x \<le> length s \<and> drop (length s - length x) s = x"

text \<open>\<^verbatim>\<open>s.replace(old, new)\<close>: every occurrence of \<open>old\<close>, left to right, without overlap;
  an empty \<open>old\<close> matches before every character and at the end.\<close>

fun replace :: "string \<Rightarrow> string \<Rightarrow> string \<Rightarrow> string" where
  "replace [] old new = (if old = [] then new else [])"
| "replace (c # cs) old new =
     (if old = [] then new @ c # replace cs old new
      else if take (length old) (c # cs) = old
        then new @ replace (drop (length old - 1) cs) old new
      else c # replace cs old new)"

text \<open>\<^verbatim>\<open>str(n)\<close> for a length, in decimal.\<close>

fun str_nat :: "nat \<Rightarrow> string" where
  "str_nat n =
     (if n < 10 then [char_of (48 + n)]
      else str_nat (n div 10) @ [char_of (48 + n mod 10)])"

declare str_nat.simps [simp del]

text \<open>\<^verbatim>\<open>"\n".join(lines)\<close>.\<close>

fun join_lines :: "string list \<Rightarrow> string" where
  "join_lines [] = []"
| "join_lines [l] = l"
| "join_lines (l # m # ls) = l @ [CHR 0x0A] @ join_lines (m # ls)"

text \<open>\<^verbatim>\<open>os.path.join(a, b)\<close>.\<close>

definition join :: "string \<Rightarrow> string \<Rightarrow> string" where
  "join a b =
     (if b \<noteq> [] \<and> hd b = CHR ''/'' then b
      else if a = [] \<or> last a = CHR ''/'' then a @ b
      else a @ ''/'' @ b)"

section \<open>Calls to the outside\<close>

definition tick :: "world \<Rightarrow> world" where
  "tick w = w\<lparr>calls := Suc (calls w)\<rparr>"

text \<open>\<^verbatim>\<open>load_config\<close>: the parsed file, or the defaults when it cannot be read.\<close>

definition default_config :: config where
  "default_config =
     \<lparr>email = \<lparr>enabled = False, smtp_server = ''smtp.gmail.com'', smtp_port = 587,
               sender_email = ''your-email@gmail.com'', sender_password = ''your-app-password'',
               recipients = [''recipient@example.com'']\<rparr>,
      tenders = [\<lparr>name = Some ''india_water_tenders'', country = Some ''India'',
                  status = Some ''Active'',
                  sector = Some ''Water and other urban infrastructure and services''\<rparr>],
      projects = [\<lparr>name = Some ''india_transport_projects'', country = Some ''India'',
                   status = Some ''Proposed'', sector = Some ''Transport''\<rparr>],
      schedule_frequency = ''daily'', schedule_time = ''09:00'', output_dir = ''output''\<rparr>"

definition load_config :: "world \<Rightarrow> config" where
  "load_config w = (case config_file w of None \<Rightarrow> default_config | Some c \<Rightarrow> c)"

text \<open>\<^verbatim>\<open>send_email_notification\<close>: the configuration is loaded again; nothing is sent when
  mail is disabled; an exception while sending is logged and swallowed. Only attachments
  that exist are attached.\<close>

definition send_email_notification :: "string \<Rightarrow> string \<Rightarrow> string list \<Rightarrow> world \<Rightarrow> world" where
  "send_email_notification subject body atts w =
     (let w1 = w\<lparr>log := log w @ [Notify subject body atts]\<rparr>;
          email_config = email (load_config w1)
      in if \<not> enabled email_config then w1
         else (case fault w1 (calls w1) of
                 Some e \<Rightarrow> tick w1
               | None \<Rightarrow>
                   tick (w1\<lparr>log := log w1 @
                     [Smtp email_config subject body (filter (exists w1) atts)]\<rparr>)))"

text \<open>\<^verbatim>\<open>os.makedirs(output_dir, exist_ok=True)\<close>: raises for the empty path, or when the
  outside says so.\<close>

definition makedirs :: "string \<Rightarrow> world \<Rightarrow> exn option \<times> world" where
  "makedirs d w =
     (if d = [] then (Some (OSError ''[Errno 2] No such file or directory''), w)
      else (fault w (calls w), tick w))"

text \<open>\<^verbatim>\<open>os.listdir\<close>.\<close>

definition listdir :: "string \<Rightarrow> world \<Rightarrow> (exn + string list) \<times> world" where
  "listdir d w =
     (case fault w (calls w) of
        Some e \<Rightarrow> (Inl e, tick w)
      | None \<Rightarrow> (Inr (map fst (dirs w (dir_key d))), tick w))"

text \<open>\<^verbatim>\<open>ADBScraper.__init__\<close>: starts the browser; \<^verbatim>\<open>webdriver.Chrome\<close> can raise.\<close>

definition ADBScraper :: "world \<Rightarrow> exn option \<times> world" where
  "ADBScraper w =
     (case fault w (calls w) of
        Some e \<Rightarrow> (Some e, tick w)
      | None \<Rightarrow> (None, tick (w\<lparr>browsers := Suc (browsers w), log := log w @ [Init]\<rparr>)))"

text \<open>\<^verbatim>\<open>ADBScraper.close\<close>: \<^verbatim>\<open>driver.quit()\<close> is called. When it returns the session is
  released; when it raises, the exception is logged and swallowed and the session stays
  as it is.\<close>

definition close :: "world \<Rightarrow> world" where
  "close w =
     (case fault w (calls w) of
        Some e \<Rightarrow> tick (w\<lparr>log := log w @ [Quit]\<rparr>)
      | None \<Rightarrow> tick (w\<lparr>browsers := browsers w - 1, log := log w @ [Quit]\<rparr>))"

text \<open>\<^verbatim>\<open>ADBScraper.save_results_to_csv\<close>: \<^verbatim>\<open>results.to_csv(filename, index=False)\<close>; an
  exception (the outside decides whether the write fails, for instance because the
  directory is not there) is logged and swallowed. A file of that name is replaced.\<close>

definition save_results_to_csv :: "dataframe \<Rightarrow> string \<Rightarrow> world \<Rightarrow> world" where
  "save_results_to_csv results filename w =
     (case fault w (calls w) of
        Some e \<Rightarrow> tick w
      | None \<Rightarrow>
          tick (w\<lparr>dirs := (dirs w)(fst (split_path filename) :=
                  AList.update (snd (split_path filename)) (to_csv_file w results)
                    (dirs w (fst (split_path filename))))\<rparr>))"

text \<open>\<^verbatim>\<open>ADBScraper.search_tenders\<close> and \<^verbatim>\<open>search_projects\<close>, as \<^verbatim>\<open>run_job\<close> calls them (the
  filters always have the key \<^verbatim>\<open>status\<close>): the page is loaded, the country and sector
  filters are clicked and the items extracted (\<open>page\<close>), then the rows whose
  \<^verbatim>\<open>Status\<close> equals the filter's are kept. Any exception on the way, also the
  \<^verbatim>\<open>KeyError\<close> of a result without a \<^verbatim>\<open>Status\<close> column, is logged and an empty DataFrame
  returned.\<close>

definition search :: "category \<Rightarrow> string option \<Rightarrow> string option \<Rightarrow> string option \<Rightarrow> world
    \<Rightarrow> dataframe \<times> world" where
  "search cat country' status' sector' w =
     (let w1 = w\<lparr>calls := Suc (calls w), log := log w @ [Fetch cat country' status' sector']\<rparr>
      in case page w (calls w) of
           Inl e \<Rightarrow> (DataFrame, w1)
         | Inr items \<Rightarrow>
            (let results = from_records items
             in case getitem results ''Status'' of
                  Inl e \<Rightarrow> (DataFrame, w1)
                | Inr statuses \<Rightarrow>
                   (results\<lparr>rows :=
                      filter (\<lambda>r. status' \<noteq> None \<and> map_of r ''Status'' = map_option Str status')
                        (rows results)\<rparr>,
                    w1)))"

section \<open>run\_job\<close>

text \<open>The previous file of a search: the loop over \<^verbatim>\<open>os.listdir(output_dir)\<close>. \<open>pre\<close> is
  \<^verbatim>\<open>f"tenders_{filter_name}_"\<close> (or \<^verbatim>\<open>projects_\<close>), \<open>current\<close> the name of the file
  just written.\<close>

definition file_timestamp :: "string \<Rightarrow> string \<Rightarrow> string" where
  "file_timestamp pre file = replace (replace file pre []) ''.csv'' []"

definition previous_step :: "string \<Rightarrow> string \<Rightarrow> string option \<Rightarrow> string \<Rightarrow> string option" where
  "previous_step pre current previous_file file =
     (if startswith file pre \<and> endswith file ''.csv'' \<and> file \<noteq> current then
        (case previous_file of
           None \<Rightarrow> Some file
         | Some p \<Rightarrow>
             if file_timestamp pre file > file_timestamp pre p then Some file else Some p)
      else previous_file)"

definition find_previous_file :: "string \<Rightarrow> string \<Rightarrow> string list \<Rightarrow> string option" where
  "find_previous_file pre current listing = foldl (previous_step pre current) None listing"

text \<open>The three variables the loops of \<^verbatim>\<open>run_job\<close> update.\<close>

record acc =
  notification_body :: "string list"
  attachments :: "string list"
  new_items_found :: bool

fun kind :: "category \<Rightarrow> string" where
  "kind Tenders = ''tenders''"
| "kind Projects = ''projects''"

text \<open>\<^verbatim>\<open>row['Title']\<close> in an f-string.\<close>

definition title_str :: "row \<Rightarrow> string" where
  "title_str r =
     (case map_of r ''Title'' of
        None \<Rightarrow> ''nan''
      | Some (Str t) \<Rightarrow> t
      | Some (Num n) \<Rightarrow> (if n < 0 then ''-'' else []) @ str_nat (nat \<bar>n\<bar>))"

text \<open>The body of the loop over the tender filters; the loop over the project filters is
  the same text with \<^verbatim>\<open>projects\<close> for \<^verbatim>\<open>tenders\<close>. \<open>Inl\<close> is an exception that leaves the
  loop.\<close>

definition process_filter :: "category \<Rightarrow> string \<Rightarrow> string \<Rightarrow> filter_spec \<Rightarrow> acc \<Rightarrow> world
    \<Rightarrow> (exn + acc) \<times> world" where
  "process_filter cat output_dir' timestamp f a w =
     (let filter_name = (case name f of None \<Rightarrow> ''unnamed'' | Some n \<Rightarrow> n);
          (results, w1) = search cat (country f) (status f) (sector f) w
      in if df_empty results then (Inr a, w1)
         else
          (let output_file =
                 output_dir' @ ''/'' @ kind cat @ ''_'' @ filter_name @ ''_'' @ timestamp @ ''.csv'';
               w2 = save_results_to_csv results output_file w1;
               a1 = a\<lparr>attachments := attachments a @ [output_file]\<rparr>
           in case listdir output_dir' w2 of
                (Inl e, w3) \<Rightarrow> (Inl e, w3)
              | (Inr listing, w3) \<Rightarrow>
                 (case find_previous_file (kind cat @ ''_'' @ filter_name @ ''_'')
                         (basename output_file) listing of
                    Some previous_file \<Rightarrow>
                      (let new_items =
                             compare_with_previous results (join output_dir' previous_file) w3
                       in if \<not> df_empty new_items then
                            (Inr (a1\<lparr>new_items_found := True,
                                 notification_body := notification_body a1 @
                                   [''Found '' @ str_nat (len new_items) @ '' new '' @ kind cat
                                      @ '' for '' @ filter_name @ '':'']
                                   @ map (\<lambda>r. ''- '' @ title_str r) (rows new_items) @ [[]]\<rparr>), w3)
                          else (Inr a1, w3))
                  | None \<Rightarrow>
                      (Inr (a1\<lparr>new_items_found := True,
                           notification_body := notification_body a1 @
                             [''Found '' @ str_nat (len results) @ '' '' @ kind cat @ '' for ''
                                @ filter_name @ '' (first run)'', []]\<rparr>), w3))))"

fun process_filters :: "category \<Rightarrow> string \<Rightarrow> string \<Rightarrow> filter_spec list \<Rightarrow> acc \<Rightarrow> world
    \<Rightarrow> (exn + acc) \<times> world" where
  "process_filters cat output_dir' timestamp [] a w = (Inr a, w)"
| "process_filters cat output_dir' timestamp (f # fs) a w =
     (case process_filter cat output_dir' timestamp f a w of
        (Inl e, w1) \<Rightarrow> (Inl e, w1)
      | (Inr a1, w1) \<Rightarrow> process_filters cat output_dir' timestamp fs a1 w1)"

text \<open>The body of the \<^verbatim>\<open>try\<close> of \<^verbatim>\<open>run_job\<close>.\<close>

definition run_try :: "config \<Rightarrow> string \<Rightarrow> string \<Rightarrow> world \<Rightarrow> (exn + acc) \<times> world" where
  "run_try config' output_dir' timestamp w =
     (case process_filters Tenders output_dir' timestamp (tenders config')
             \<lparr>notification_body = [], attachments = [], new_items_found = False\<rparr> w of
        (Inl e, w1) \<Rightarrow> (Inl e, w1)
      | (Inr a1, w1) \<Rightarrow>
         (case process_filters Projects output_dir' timestamp (projects config') a1 w1 of
            (Inl e, w2) \<Rightarrow> (Inl e, w2)
          | (Inr a2, w2) \<Rightarrow>
             (Inr a2,
              if new_items_found a2 then
                send_email_notification ''ADB Monitoring Update - New Items Found''
                  (join_lines (notification_body a2)) (attachments a2) w2
              else w2)))"

text \<open>\<^verbatim>\<open>run_job\<close>: \<open>Some e\<close> is an exception that leaves it (the directory cannot be
  created, the browser does not start), \<open>None\<close> a normal return. The \<^verbatim>\<open>except\<close> sends the
  failure mail, the \<^verbatim>\<open>finally\<close> closes the browser.\<close>

definition run_job :: "world \<Rightarrow> exn option \<times> world" where
  "run_job w =
     (let config' = load_config w; output_dir' = output_dir config'
      in case makedirs output_dir' w of
           (Some e, w1) \<Rightarrow> (Some e, w1)
         | (None, w1) \<Rightarrow>
            (let timestamp = now w1
             in case ADBScraper w1 of
                  (Some e, w2) \<Rightarrow> (Some e, w2)
                | (None, w2) \<Rightarrow>
                   (case run_try config' output_dir' timestamp w2 of
                      (Inl e, w3) \<Rightarrow>
                        (None, close (send_email_notification ''ADB Monitoring Error''
                           (''An error occurred while running the ADB monitoring job:''
                              @ [CHR 0x0A, CHR 0x0A] @ str e) [] w3))
                    | (Inr a, w3) \<Rightarrow> (None, close w3))))"

section \<open>The schedule\<close>

text \<open>
  \<^verbatim>\<open>Job.at(time_str)\<close> of the \<^verbatim>\<open>schedule\<close> library, for a daily or weekday job: the time
  must read \<^verbatim>\<open>HH:MM\<close> or \<^verbatim>\<open>HH:MM:SS\<close> with an hour up to 23 (the pattern is matched with
  \<^verbatim>\<open>re.match\<close> and ends in \<^verbatim>\<open>$\<close>, which also matches before a final newline); otherwise it
  raises \<^verbatim>\<open>ScheduleValueError\<close>.
\<close>

definition digit :: "char \<Rightarrow> bool" where
  "digit c \<longleftrightarrow> c \<in> set ''0123456789''"

definition valid_time :: "string \<Rightarrow> bool" where
  "valid_time time_str =
     (let t = (if time_str \<noteq> [] \<and> last time_str = CHR 0x0A then butlast time_str else time_str);
          hhmm = take 5 t; ss = drop 5 t
      in length hhmm = 5
         \<and> hhmm ! 0 \<in> set ''012'' \<and> digit (hhmm ! 1) \<and> hhmm ! 2 = CHR '':''
         \<and> hhmm ! 3 \<in> set ''012345'' \<and> digit (hhmm ! 4)
         \<and> (hhmm ! 0 = CHR ''2'' \<longrightarrow> hhmm ! 1 \<in> set ''0123'')
         \<and> (ss = [] \<or> length ss = 3 \<and> ss ! 0 = CHR '':'' \<and> ss ! 1 \<in> set ''012345''
                        \<and> digit (ss ! 2)))"

text \<open>\<^verbatim>\<open>setup_schedule\<close>: the job registered with the \<^verbatim>\<open>schedule\<close> library, or the
  exception of \<^verbatim>\<open>at\<close>.\<close>

datatype job = Every_day string | Every_monday string

definition setup_schedule :: "world \<Rightarrow> exn + job" where
  "setup_schedule w =
     (let schedule_config = load_config w;
          frequency = schedule_frequency schedule_config;
          run_time = schedule_time schedule_config
      in if \<not> valid_time run_time then Inl (ScheduleValueError ''Invalid time format'')
         else if frequency = ''daily'' then Inr (Every_day run_time)
         else if frequency = ''weekly'' then Inr (Every_monday run_time)
         else Inr (Every_day run_time))"

text \<open>
  \<^verbatim>\<open>main\<close>: the schedule is set up, the job runs once, then the loop polls every 60
  seconds for ever. What happens to the process from outside is a list of steps: the
  registered job falls due at a poll, at the given time of the clock (\<open>Due\<close>), or
  somebody rewrites \<^verbatim>\<open>config.json\<close> between two polls (\<open>Edit\<close>). The result is what
  \<^verbatim>\<open>setup_schedule\<close> has registered and what the process has done after these steps:
  \<open>Some e\<close> when an exception has ended it, as the exception of \<^verbatim>\<open>setup_schedule\<close> does
  before the first run. At startup a missing \<^verbatim>\<open>config.json\<close> is created with the defaults
  (a file that is there but is not JSON is left alone; it reads as the defaults as well).
\<close>

datatype step = Due string | Edit "config option"

fun schedule_loop :: "step list \<Rightarrow> world \<Rightarrow> exn option \<times> world" where
  "schedule_loop [] w = (None, w)"
| "schedule_loop (Due t # steps) w =
     (case run_job (w\<lparr>now := t\<rparr>) of
        (Some e, w1) \<Rightarrow> (Some e, w1)
      | (None, w1) \<Rightarrow> schedule_loop steps w1)"
| "schedule_loop (Edit c # steps) w = schedule_loop steps (w\<lparr>config_file := c\<rparr>)"

definition main :: "step list \<Rightarrow> world \<Rightarrow> (exn + job) \<times> exn option \<times> world" where
  "main steps w =
     (let w0 = (if config_file w = None then w\<lparr>config_file := Some default_config\<rparr> else w);
          registered = setup_schedule w0
      in case registered of
           Inl e \<Rightarrow> (registered, Some e, w0)
         | Inr j \<Rightarrow>
            (case run_job w0 of
               (Some e, w1) \<Rightarrow> (registered, Some e, w1)
             | (None, w1) \<Rightarrow> (registered, schedule_loop steps w1)))"

section \<open>Vocabulary of the properties\<close>

text \<open>A file the loop over the listing considers for a search: it starts with the prefix
  of the search, ends in \<^verbatim>\<open>.csv\<close> and is not the file just written.\<close>

definition candidate :: "string \<Rightarrow> string \<Rightarrow> string \<Rightarrow> bool" where
  "candidate pre current file \<longleftrightarrow>
     startswith file pre \<and> endswith file ''.csv'' \<and> file \<noteq> current"

text \<open>The file a search writes in a run, and the search it issues.\<close>

definition output_file_of :: "category \<Rightarrow> string \<Rightarrow> string \<Rightarrow> filter_spec \<Rightarrow> string" where
  "output_file_of cat output_dir' timestamp f =
     output_dir' @ ''/'' @ kind cat @ ''_'' @ (case name f of None \<Rightarrow> ''unnamed'' | Some n \<Rightarrow> n)
       @ ''_'' @ timestamp @ ''.csv''"

definition prefix_of :: "category \<Rightarrow> filter_spec \<Rightarrow> string" where
  "prefix_of cat f = kind cat @ ''_'' @ (case name f of None \<Rightarrow> ''unnamed'' | Some n \<Rightarrow> n) @ ''_''"

definition fetch_of :: "category \<Rightarrow> filter_spec \<Rightarrow> event" where
  "fetch_of cat f = Fetch cat (country f) (status f) (sector f)"

text \<open>The events a step adds to the log, and the kinds of events.\<close>

definition new_events :: "world \<Rightarrow> world \<Rightarrow> event list" where
  "new_events w w' = drop (length (log w)) (log w')"

fun is_notify :: "event \<Rightarrow> bool" where
  "is_notify (Notify subject body atts) = True"
| "is_notify e = False"

fun is_fetch :: "event \<Rightarrow> bool" where
  "is_fetch (Fetch cat c s t) = True"
| "is_fetch e = False"

fun is_browser :: "event \<Rightarrow> bool" where
  "is_browser Init = True"
| "is_browser Quit = True"
| "is_browser e = False"

text \<open>The world after one search of a run was processed (the accumulated variables do not
  influence it), and after a list of them.\<close>

definition world_after :: "category \<Rightarrow> string \<Rightarrow> string \<Rightarrow> filter_spec \<Rightarrow> world \<Rightarrow> world" where
  "world_after cat output_dir' timestamp f w =
     (let r = search cat (country f) (status f) (sector f) w
      in if df_empty (fst r) then snd r
         else tick (save_results_to_csv (fst r) (output_file_of cat output_dir' timestamp f) (snd r)))"

text \<open>The previous file a search resolves from the listing of the output directory.\<close>

definition resolved_previous :: "category \<Rightarrow> string \<Rightarrow> string \<Rightarrow> filter_spec \<Rightarrow> world
    \<Rightarrow> string option" where
  "resolved_previous cat output_dir' timestamp f w =
     find_previous_file (prefix_of cat f) (basename (output_file_of cat output_dir' timestamp f))
       (map fst (dirs (world_after cat output_dir' timestamp f w) (dir_key output_dir')))"

text \<open>
  The new records of one lineage, in the words of the specification: none when the
  fetched snapshot is empty; every record of the snapshot when no previous snapshot is
  resolved; otherwise the difference to the resolved previous snapshot.
\<close>

definition new_records :: "category \<Rightarrow> string \<Rightarrow> string \<Rightarrow> filter_spec \<Rightarrow> world \<Rightarrow> row list" where
  "new_records cat output_dir' timestamp f w =
     (let results = fst (search cat (country f) (status f) (sector f) w)
      in if df_empty results then []
         else (case resolved_previous cat output_dir' timestamp f w of
                 None \<Rightarrow> rows results
               | Some previous_file \<Rightarrow>
                   rows (compare_with_previous results (join output_dir' previous_file)
                          (world_after cat output_dir' timestamp f w))))"

text \<open>The lineages of a configuration in the order a run processes them, and the new
  records each of them yields in a run that starts in \<open>w\<close>.\<close>

definition lineages :: "config \<Rightarrow> (category \<times> filter_spec) list" where
  "lineages c = map (Pair Tenders) (tenders c) @ map (Pair Projects) (projects c)"

fun yields :: "string \<Rightarrow> string \<Rightarrow> (category \<times> filter_spec) list \<Rightarrow> world \<Rightarrow> row list list" where
  "yields output_dir' timestamp [] w = []"
| "yields output_dir' timestamp (l # ls) w =
     new_records (fst l) output_dir' timestamp (snd l) w
       # yields output_dir' timestamp ls (world_after (fst l) output_dir' timestamp (snd l) w)"

text \<open>Each lineage of a run with the world in which its turn comes.\<close>

fun lineage_worlds :: "string \<Rightarrow> string \<Rightarrow> (category \<times> filter_spec) list \<Rightarrow> world
    \<Rightarrow> ((category \<times> filter_spec) \<times> world) list" where
  "lineage_worlds output_dir' timestamp [] w = []"
| "lineage_worlds output_dir' timestamp (l # ls) w =
     (l, w) # lineage_worlds output_dir' timestamp ls
                (world_after (fst l) output_dir' timestamp (snd l) w)"

text \<open>
  The new records of a lineage are in the accumulated notification: the file written for
  the lineage is attached; when a previous file was resolved every new record has its
  line \<^verbatim>\<open>- {Title}\<close> in the body; on a first run the body has the line with the number of
  records.
\<close>

definition reported :: "category \<Rightarrow> string \<Rightarrow> string \<Rightarrow> filter_spec \<Rightarrow> world \<Rightarrow> acc \<Rightarrow> bool" where
  "reported cat output_dir' timestamp f w a \<longleftrightarrow>
     (new_records cat output_dir' timestamp f w \<noteq> [] \<longrightarrow>
        output_file_of cat output_dir' timestamp f \<in> set (attachments a))
     \<and> (case resolved_previous cat output_dir' timestamp f w of
          None \<Rightarrow>
            new_records cat output_dir' timestamp f w \<noteq> [] \<longrightarrow>
              ''Found '' @ str_nat (length (new_records cat output_dir' timestamp f w)) @ '' ''
                @ kind cat @ '' for '' @ (case name f of None \<Rightarrow> ''unnamed'' | Some n \<Rightarrow> n)
                @ '' (first run)'' \<in> set (notification_body a)
        | Some previous_file \<Rightarrow>
            \<forall>r \<in> set (new_records cat output_dir' timestamp f w).
              ''- '' @ title_str r \<in> set (notification_body a))"

text \<open>Whether \<^verbatim>\<open>run_job\<close> gets as far as a started browser.\<close>

definition browser_started :: "world \<Rightarrow> bool" where
  "browser_started w \<longleftrightarrow>
     fst (makedirs (output_dir (load_config w)) w) = None
     \<and> fst (ADBScraper (snd (makedirs (output_dir (load_config w)) w))) = None"

text \<open>The world in which the \<^verbatim>\<open>try\<close> of \<^verbatim>\<open>run_job\<close> starts, what it returns, and the
  world in which the \<^verbatim>\<open>finally\<close> starts.\<close>

definition try_start :: "world \<Rightarrow> world" where
  "try_start w = snd (ADBScraper (snd (makedirs (output_dir (load_config w)) w)))"

definition try_result :: "world \<Rightarrow> (exn + acc) \<times> world" where
  "try_result w =
     run_try (load_config w) (output_dir (load_config w))
       (now (snd (makedirs (output_dir (load_config w)) w))) (try_start w)"

definition before_close :: "world \<Rightarrow> world" where
  "before_close w =
     (case try_result w of
        (Inl e, w3) \<Rightarrow>
          send_email_notification ''ADB Monitoring Error''
            (''An error occurred while running the ADB monitoring job:''
               @ [CHR 0x0A, CHR 0x0A] @ str e) [] w3
      | (Inr a, w3) \<Rightarrow> w3)"

section \<open>Example data\<close>

text \<open>
  How pandas (its defaults) reads back a frame it has written, for the columns that occur
  in the examples. A cell is written as its text, a missing cell as the empty text. When
  the file is read, a text that is one of the NA words is a missing cell; a column whose
  other texts are all integer literals is a column of numbers (pandas makes them
  floating-point numbers of the same values when the column has a missing cell; the
  program only compares them with the strings of the current snapshot, which they never
  equal); any other column keeps its texts as strings. (Further spellings that pandas
  reads as numbers or truth values, such as decimal fractions, do not occur in the
  examples.) A frame without columns is written as an empty file, which \<^verbatim>\<open>pd.read_csv\<close>
  cannot parse.
\<close>

definition na_values :: "string list" where
  "na_values =
     [[], ''#N/A'', ''#N/A N/A'', ''#NA'', ''-1.#IND'', ''-1.#QNAN'', ''-NaN'', ''-nan'',
      ''1.#IND'', ''1.#QNAN'', ''<NA>'', ''N/A'', ''NA'', ''NULL'', ''NaN'', ''None'', ''n/a'',
      ''nan'', ''null'']"

definition csv_text :: "cell option \<Rightarrow> string" where
  "csv_text v =
     (case v of
        None \<Rightarrow> []
      | Some (Str t) \<Rightarrow> t
      | Some (Num n) \<Rightarrow> (if n < 0 then ''-'' else []) @ str_nat (nat \<bar>n\<bar>))"

definition unsigned :: "string \<Rightarrow> string" where
  "unsigned t = (if t \<noteq> [] \<and> (hd t = CHR ''-'' \<or> hd t = CHR ''+'') then tl t else t)"

definition int_literal :: "string \<Rightarrow> bool" where
  "int_literal t \<longleftrightarrow> unsigned t \<noteq> [] \<and> list_all digit (unsigned t)"

definition int_value :: "string \<Rightarrow> int" where
  "int_value t =
     (if t \<noteq> [] \<and> hd t = CHR ''-'' then - 1 else 1)
       * foldl (\<lambda>a c. 10 * a + (int (of_char c) - 48)) 0 (unsigned t)"

definition numeric_column :: "dataframe \<Rightarrow> string \<Rightarrow> bool" where
  "numeric_column df c \<longleftrightarrow>
     list_all int_literal
       (filter (\<lambda>t. t \<notin> set na_values) (map (\<lambda>r. csv_text (map_of r c)) (rows df)))"

definition read_cell :: "dataframe \<Rightarrow> row \<Rightarrow> string \<Rightarrow> row" where
  "read_cell df r c =
     (let t = csv_text (map_of r c)
      in if t \<in> set na_values then []
         else if numeric_column df c then [(c, Num (int_value t))]
         else [(c, Str t)])"

definition pandas_csv :: "dataframe \<Rightarrow> file_content" where
  "pandas_csv df =
     (if columns df = [] then Unparseable
      else Csv \<lparr>columns = columns df,
                rows = map (\<lambda>r. concat (map (read_cell df r) (columns df))) (rows df)\<rparr>)"

text \<open>A listing as the scraper extracts it, a snapshot of listings with the given titles,
  and a world whose directory \<^verbatim>\<open>output\<close> holds the given entries, in which no browser is
  open.\<close>

definition example_listing :: "string \<Rightarrow> item" where
  "example_listing t =
     [(''Title'', t), (''Link'', ''https://www.adb.org/projects/'' @ t), (''Status'', ''Active'')]"

definition snapshot :: "string list \<Rightarrow> dataframe" where
  "snapshot titles = from_records (map example_listing titles)"

definition example_world :: "config option \<Rightarrow> (string \<times> file_content) list \<Rightarrow> string
    \<Rightarrow> (nat \<Rightarrow> exn option) \<Rightarrow> (nat \<Rightarrow> exn + item list) \<Rightarrow> world" where
  "example_world c entries ts faults pages =
     \<lparr>config_file = c, dirs = (\<lambda>d. if d = ''output'' then entries else []), now = ts,
      calls = 0, fault = faults, page = pages, to_csv_file = pandas_csv, browsers = 0,
      log = []\<rparr>"

text \<open>A search named \<open>n\<close> for the active listings of country \<open>c\<close>, and a configuration
  with the given tender searches, no project search and mail disabled.\<close>

definition example_filter :: "string \<Rightarrow> string \<Rightarrow> filter_spec" where
  "example_filter n c = \<lparr>name = Some n, country = Some c, status = Some ''Active'', sector = None\<rparr>"

definition example_config :: "filter_spec list \<Rightarrow> config" where
  "example_config fs = default_config\<lparr>tenders := fs, projects := []\<rparr>"

text \<open>A run at day 2 of the search \<open>a\<close> whose snapshot of day 1 has the titles X and Y: the
  site lists the given titles.\<close>

definition day2_run :: "string list \<Rightarrow> world" where
  "day2_run titles =
     example_world (Some (example_config [example_filter ''a'' ''India'']))
       [(''tenders_a_20240101_090000.csv'', Csv (snapshot [''X'', ''Y'']))]
       ''20240102_090000'' (\<lambda>n. None) (\<lambda>n. Inr (map example_listing titles))"

text \<open>A first run of three searches. The calls to the outside are numbered from 0: the
  directory is created (0), the browser started (1), then each search scrapes, writes its
  file and lists the directory (2, 3, 4; 5, 6, 7; 8, 9, 10). In \<open>source_error_run\<close> the
  scrape of the second search hits an exception; in \<open>listing_error_run\<close> listing the
  directory fails during the second search.\<close>

definition three_searches :: config where
  "three_searches = example_config
     [example_filter ''a'' ''India'', example_filter ''b'' ''Nepal'', example_filter ''c'' ''Fiji'']"


definition listing_error_run :: world where
  "listing_error_run =
     example_world (Some three_searches) [] ''20240101_090000''
       (\<lambda>n. if n = 7 then Some (OSError ''[Errno 13] Permission denied'') else None)
       (\<lambda>n. Inr (map example_listing [''X'', ''Y'']))"


text \<open>A process that starts with the search \<open>a\<close> for India configured.\<close>

definition startup_world :: world where
  "startup_world =
     example_world (Some (example_config [example_filter ''a'' ''India''])) []
       ''20240101_090000'' (\<lambda>n. None) (\<lambda>n. Inr (map example_listing [''X'', ''Y'']))"

text \<open>A run in which the browser does not come up, and a world in which mail is enabled
  and one attachment exists.\<close>

definition browser_fails_run :: world where
  "browser_fails_run =
     example_world (Some (example_config [example_filter ''a'' ''India''])) []
       ''20240101_090000''
       (\<lambda>n. if n = 1 then Some (WebDriverException ''chrome not reachable'') else None)
       (\<lambda>n. Inr (map example_listing [''X'', ''Y'']))"

definition mail_enabled_world :: world where
  "mail_enabled_world =
     example_world
       (Some ((example_config [example_filter ''a'' ''India''])
          \<lparr>email := (email default_config)\<lparr>enabled := True\<rparr>\<rparr>))
       [(''tenders_a_20240101_090000.csv'', Csv (snapshot [''X'', ''Y'']))]
       ''20240101_090000'' (\<lambda>n. None) (\<lambda>n. Inr (map example_listing [''X'', ''Y'']))"

text \<open>A first run of one search, with the calls to the outside numbered as above and the
  browser quit as call 5, in which \<^verbatim>\<open>driver.quit()\<close> raises.\<close>

definition quit_fails_run :: world where
  "quit_fails_run =
     example_world (Some (example_config [example_filter ''a'' ''India''])) []
       ''20240101_090000''
       (\<lambda>n. if n = 5 then Some (WebDriverException ''chrome not reachable'') else None)
       (\<lambda>n. Inr (map example_listing [''X'', ''Y'']))"



text \<open>A process whose site lists the titles 123 and 456 at its first run and again when the
  job falls due at day 2.\<close>

definition numeric_titles_world :: world where
  "numeric_titles_world =
     example_world (Some (example_config [example_filter ''a'' ''India''])) []
       ''20240101_090000'' (\<lambda>n. None) (\<lambda>n. Inr (map example_listing [''123'', ''456'']))"

text \<open>Two searches of the same category, \<open>india\<close> and \<open>india_water\<close>. The directory holds
  the snapshot of \<open>india_water\<close> of day 1 (title X) and the snapshot of \<open>india\<close> of day 2
  (titles X and Y); at day 3 the search \<open>india\<close> runs again and the site still lists X
  and Y.\<close>

definition two_lineages_listing :: "string list" where
  "two_lineages_listing =
     [''tenders_india_20240102_090000.csv'', ''tenders_india_water_20240101_090000.csv'',
      ''tenders_india_20240103_090000.csv'']"

definition two_lineages_run :: world where
  "two_lineages_run =
     example_world (Some (example_config [example_filter ''india'' ''India'']))
       [(''tenders_india_20240102_090000.csv'', Csv (snapshot [''X'', ''Y''])),
        (''tenders_india_water_20240101_090000.csv'', Csv (snapshot [''X'']))]
       ''20240103_090000'' (\<lambda>n. None) (\<lambda>n. Inr (map example_listing [''X'', ''Y'']))"

section \<open>Properties of compare\_with\_previous\<close>

lemma getitem_Inr:
  "c \<in> set (columns df) \<Longrightarrow> getitem df c = Inr (map (\<lambda>r. map_of r c) (rows df))"
  by (simp add: getitem_def)

lemma getitem_Inl:
  "c \<notin> set (columns df) \<Longrightarrow> getitem df c = Inl (KeyError c)"
  by (simp add: getitem_def)

lemma compare_try_csv:
  assumes "lookup_file w p = Some (Csv prev)"
    and "''Title'' \<in> set (columns cur)" and "''Title'' \<in> set (columns prev)"
  shows "compare_try cur p w =
     Inr (cur\<lparr>rows := filter (\<lambda>r. map_of r ''Title'' \<notin> (\<lambda>r. map_of r ''Title'') ` set (rows prev))
                          (rows cur)\<rparr>)"
proof -
  have "filter (\<lambda>r. map_of r ''Title'' \<in> set (map (\<lambda>r. map_of r ''Title'') (rows cur))
                      - set (map (\<lambda>r. map_of r ''Title'') (rows prev))) (rows cur)
      = filter (\<lambda>r. map_of r ''Title'' \<notin> (\<lambda>r. map_of r ''Title'') ` set (rows prev)) (rows cur)"
    by (rule filter_cong) auto
  then show ?thesis
    using assms by (simp add: compare_try_def exists_def read_csv_def getitem_Inr Let_def)
qed

lemma compare_try_absent: "\<not> exists w p \<Longrightarrow> compare_try cur p w = Inr cur"
  by (simp add: compare_try_def)

lemma compare_try_error_iff:
  "(\<exists>e. compare_try cur p w = Inl e) \<longleftrightarrow>
     lookup_file w p = Some Unparseable
     \<or> (\<exists>prev. lookup_file w p = Some (Csv prev)
           \<and> (''Title'' \<notin> set (columns cur) \<or> ''Title'' \<notin> set (columns prev)))"
  by (auto simp: compare_try_def exists_def read_csv_def getitem_def Let_def
      split: option.splits file_content.splits)

lemmas example_simps =
  lookup_file_def split_path_def dir_key_def rstrip_sep_def example_world_def
  snapshot_def from_records_def example_listing_def



text \<open>
  C2. When the previous file does not exist, \<open>compare_with_previous\<close> returns the current
  snapshot unchanged: every record is reported as new.
\<close>

theorem compare_first_run:
  assumes "\<not> exists w previous_file"
  shows "compare_with_previous current_df previous_file w = current_df"
  using assms by (simp add: compare_with_previous_def compare_try_absent)

theorem compare_first_run_witness:
  "\<not> exists (example_world None [] ''20240102_090000'' (\<lambda>n. None) (\<lambda>n. Inr []))
       ''output/tenders_a_20240101_090000.csv''
   \<and> compare_with_previous (snapshot [''X'', ''Y''])
       ''output/tenders_a_20240101_090000.csv''
       (example_world None [] ''20240102_090000'' (\<lambda>n. None) (\<lambda>n. Inr []))
     = snapshot [''X'', ''Y'']"
  using compare_first_run [of
     "example_world None [] ''20240102_090000'' (\<lambda>n. None) (\<lambda>n. Inr [])"
     "''output/tenders_a_20240101_090000.csv''" "snapshot [''X'', ''Y'']"]
  by (simp add: exists_def example_simps)

text \<open>
  Compared with a previous file that \<^verbatim>\<open>pd.read_csv\<close> parses to the very frame at hand, the
  result has no records.
\<close>

lemma compare_same_frame_empty:
  assumes "lookup_file w previous_file = Some (Csv S)"
  shows "rows (compare_with_previous S previous_file w) = []
         \<and> len (compare_with_previous S previous_file w) = 0
         \<and> df_empty (compare_with_previous S previous_file w)"
proof (cases "''Title'' \<in> set (columns S)")
  case True
  have "filter (\<lambda>r. map_of r ''Title'' \<notin> (\<lambda>p. map_of p ''Title'') ` set (rows S)) (rows S) = []"
    by (simp add: filter_empty_conv)
  with True assms show ?thesis
    by (simp add: compare_with_previous_def compare_try_csv len_def df_empty_def)
next
  case False
  with assms have "\<exists>e. compare_try S previous_file w = Inl e"
    by (simp add: compare_try_error_iff)
  then show ?thesis
    by (auto simp: compare_with_previous_def DataFrame_def len_def df_empty_def)
qed

text \<open>
  C10. The body of \<open>compare_with_previous\<close> raises exactly when the previous file exists
  and cannot be parsed, or it parses and one of the two snapshots has no \<^verbatim>\<open>Title\<close>
  column. In each of these cases \<open>compare_with_previous\<close> itself does not raise: it
  returns the empty DataFrame, of length 0.
\<close>

theorem compare_error_returns_empty:
  assumes "lookup_file w previous_file = Some Unparseable
     \<or> (\<exists>previous_df. lookup_file w previous_file = Some (Csv previous_df)
           \<and> (''Title'' \<notin> set (columns current_df) \<or> ''Title'' \<notin> set (columns previous_df)))"
  shows "(\<exists>e. compare_try current_df previous_file w = Inl e)
         \<and> compare_with_previous current_df previous_file w = DataFrame
         \<and> len (compare_with_previous current_df previous_file w) = 0"
proof -
  from assms obtain e where "compare_try current_df previous_file w = Inl e"
    using compare_try_error_iff [of current_df previous_file w] by blast
  then show ?thesis
    by (simp add: compare_with_previous_def DataFrame_def len_def)
qed

theorem compare_error_returns_empty_witness:
  "lookup_file
     (example_world None [(''tenders_a_20240101_090000.csv'', Unparseable)]
        ''20240102_090000'' (\<lambda>n. None) (\<lambda>n. Inr []))
     ''output/tenders_a_20240101_090000.csv'' = Some Unparseable
   \<and> compare_with_previous (snapshot [''X'', ''Y''])
       ''output/tenders_a_20240101_090000.csv''
       (example_world None [(''tenders_a_20240101_090000.csv'', Unparseable)]
          ''20240102_090000'' (\<lambda>n. None) (\<lambda>n. Inr []))
     = DataFrame"
  using compare_error_returns_empty [of
     "example_world None [(''tenders_a_20240101_090000.csv'', Unparseable)]
        ''20240102_090000'' (\<lambda>n. None) (\<lambda>n. Inr [])"
     "''output/tenders_a_20240101_090000.csv''" "snapshot [''X'', ''Y'']"]
  by (simp add: example_simps)

section \<open>The previous file of a search\<close>

text \<open>The loop over the listing returns no file exactly when the listing has no candidate;
  otherwise it returns a candidate of the listing whose timestamp string no candidate
  exceeds. When the candidates have different timestamp strings the result depends on the
  files listed only, not on their order.\<close>

lemma previous_step_candidate:
  "previous_step pre cur acc f =
     (if candidate pre cur f then
        (case acc of None \<Rightarrow> Some f
         | Some p \<Rightarrow> if file_timestamp pre p < file_timestamp pre f then Some f else Some p)
      else acc)"
  by (simp add: previous_step_def candidate_def)

lemma foldl_previous_Some:
  "\<exists>q. foldl (previous_step pre cur) (Some p) names = Some q
       \<and> (q = p \<or> q \<in> set names \<and> candidate pre cur q)
       \<and> file_timestamp pre p \<le> file_timestamp pre q
       \<and> (\<forall>g \<in> set names. candidate pre cur g \<longrightarrow> file_timestamp pre g \<le> file_timestamp pre q)"
proof (induction names arbitrary: p)
  case Nil
  then show ?case by simp
next
  case (Cons f names)
  show ?case
  proof (cases "candidate pre cur f \<and> file_timestamp pre p < file_timestamp pre f")
    case True
    from Cons.IH [of f] obtain q where
      q: "foldl (previous_step pre cur) (Some f) names = Some q"
         "q = f \<or> q \<in> set names \<and> candidate pre cur q"
         "file_timestamp pre f \<le> file_timestamp pre q"
         "\<forall>g \<in> set names. candidate pre cur g \<longrightarrow> file_timestamp pre g \<le> file_timestamp pre q"
      by blast
    moreover have "previous_step pre cur (Some p) f = Some f"
      using True by (simp add: previous_step_candidate)
    ultimately show ?thesis
      using True by auto
  next
    case False
    from Cons.IH [of p] obtain q where
      q: "foldl (previous_step pre cur) (Some p) names = Some q"
         "q = p \<or> q \<in> set names \<and> candidate pre cur q"
         "file_timestamp pre p \<le> file_timestamp pre q"
         "\<forall>g \<in> set names. candidate pre cur g \<longrightarrow> file_timestamp pre g \<le> file_timestamp pre q"
      by blast
    moreover have "previous_step pre cur (Some p) f = Some p"
      using False by (auto simp: previous_step_candidate)
    ultimately show ?thesis
      using False by (auto simp: not_less intro: order_trans)
  qed
qed

lemma find_previous_None:
  "find_previous_file pre cur names = None \<longleftrightarrow> (\<forall>g \<in> set names. \<not> candidate pre cur g)"
proof (induction names)
  case Nil
  then show ?case by (simp add: find_previous_file_def)
next
  case (Cons f names)
  show ?case
  proof (cases "candidate pre cur f")
    case True
    from foldl_previous_Some [of pre cur f names] obtain q where
      "foldl (previous_step pre cur) (Some f) names = Some q" by blast
    moreover have "previous_step pre cur None f = Some f"
      using True by (simp add: previous_step_candidate)
    ultimately show ?thesis
      using True by (simp add: find_previous_file_def)
  next
    case False
    then have "previous_step pre cur None f = None"
      by (simp add: previous_step_candidate)
    with False Cons show ?thesis
      by (simp add: find_previous_file_def)
  qed
qed

lemma find_previous_greatest:
  assumes "find_previous_file pre cur names = Some q"
  shows "q \<in> set names \<and> candidate pre cur q
     \<and> (\<forall>g \<in> set names. candidate pre cur g \<longrightarrow> file_timestamp pre g \<le> file_timestamp pre q)"
  using assms
proof (induction names)
  case Nil
  then show ?case by (simp add: find_previous_file_def)
next
  case (Cons f names)
  show ?case
  proof (cases "candidate pre cur f")
    case True
    from foldl_previous_Some [of pre cur f names] obtain q' where
      q: "foldl (previous_step pre cur) (Some f) names = Some q'"
         "q' = f \<or> q' \<in> set names \<and> candidate pre cur q'"
         "file_timestamp pre f \<le> file_timestamp pre q'"
         "\<forall>g \<in> set names. candidate pre cur g \<longrightarrow> file_timestamp pre g \<le> file_timestamp pre q'"
      by blast
    moreover have "previous_step pre cur None f = Some f"
      using True by (simp add: previous_step_candidate)
    ultimately show ?thesis
      using True Cons.prems by (auto simp: find_previous_file_def)
  next
    case False
    then have "previous_step pre cur None f = None"
      by (simp add: previous_step_candidate)
    with False Cons show ?thesis
      by (simp add: find_previous_file_def)
  qed
qed

lemma find_previous_order_independent:
  assumes "set names = set names'"
    and "inj_on (file_timestamp pre) {g \<in> set names. candidate pre cur g}"
  shows "find_previous_file pre cur names = find_previous_file pre cur names'"
proof (cases "find_previous_file pre cur names")
  case None
  then have "\<forall>g \<in> set names'. \<not> candidate pre cur g"
    using assms(1) by (simp add: find_previous_None)
  then have "find_previous_file pre cur names' = None"
    by (simp add: find_previous_None)
  with None show ?thesis by simp
next
  case (Some q)
  note q = find_previous_greatest [OF Some]
  then have "\<not> (\<forall>g \<in> set names'. \<not> candidate pre cur g)"
    using assms(1) by blast
  then obtain q' where q': "find_previous_file pre cur names' = Some q'"
    using find_previous_None [of pre cur names'] by (cases "find_previous_file pre cur names'") auto
  note r = find_previous_greatest [OF q']
  from q r assms(1) have "file_timestamp pre q = file_timestamp pre q'"
    by (metis order_antisym)
  with q r assms have "q = q'"
    by (auto dest!: inj_onD [OF assms(2)])
  with Some q' show ?thesis by simp
qed

text \<open>Three snapshots of one lineage at days 1, 2 and 3, the one of day 3 just written: the
  one of day 2 is resolved, in any order of the listing; on the first run none is.\<close>

lemma find_previous_three_snapshots:
  "find_previous_file ''tenders_a_'' ''tenders_a_20240103_090000.csv''
     [''tenders_a_20240103_090000.csv'', ''tenders_a_20240101_090000.csv'',
      ''tenders_a_20240102_090000.csv''] = Some ''tenders_a_20240102_090000.csv''"
  "find_previous_file ''tenders_a_'' ''tenders_a_20240103_090000.csv''
     [''tenders_a_20240102_090000.csv'', ''tenders_a_20240101_090000.csv'',
      ''tenders_a_20240103_090000.csv''] = Some ''tenders_a_20240102_090000.csv''"
  "find_previous_file ''tenders_a_'' ''tenders_a_20240101_090000.csv''
     [''tenders_a_20240101_090000.csv''] = None"
  by code_simp+

section \<open>Frame lemmas\<close>

text \<open>What each call to the outside leaves unchanged, and what it adds to the log.\<close>

lemma tick_fields [simp]:
  "log (tick w) = log w" "config_file (tick w) = config_file w" "fault (tick w) = fault w"
  "page (tick w) = page w" "now (tick w) = now w" "calls (tick w) = Suc (calls w)"
  "dirs (tick w) = dirs w"
  by (simp_all add: tick_def)

lemma tick_more [simp]:
  "browsers (tick w) = browsers w" "to_csv_file (tick w) = to_csv_file w"
  by (simp_all add: tick_def)

lemma lookup_file_tick [simp]: "lookup_file (tick w) p = lookup_file w p"
  by (simp add: lookup_file_def)

lemma exists_tick [simp]: "exists (tick w) p = exists w p"
  by (simp add: exists_def)

lemma search_snd:
  "snd (search cat c s t w) = w\<lparr>calls := Suc (calls w), log := log w @ [Fetch cat c s t]\<rparr>"
  by (simp add: search_def Let_def split: sum.splits)

lemma search_fields [simp]:
  "log (snd (search cat c s t w)) = log w @ [Fetch cat c s t]"
  "config_file (snd (search cat c s t w)) = config_file w"
  "fault (snd (search cat c s t w)) = fault w"
  "page (snd (search cat c s t w)) = page w"
  "now (snd (search cat c s t w)) = now w"
  "calls (snd (search cat c s t w)) = Suc (calls w)"
  "dirs (snd (search cat c s t w)) = dirs w"
  by (simp_all add: search_snd)

lemma search_more [simp]:
  "browsers (snd (search cat c s t w)) = browsers w"
  "to_csv_file (snd (search cat c s t w)) = to_csv_file w"
  by (simp_all add: search_snd)


lemma save_fields [simp]:
  "log (save_results_to_csv r p w) = log w"
  "config_file (save_results_to_csv r p w) = config_file w"
  "fault (save_results_to_csv r p w) = fault w"
  "page (save_results_to_csv r p w) = page w"
  "now (save_results_to_csv r p w) = now w"
  "calls (save_results_to_csv r p w) = Suc (calls w)"
  by (simp_all add: save_results_to_csv_def tick_def split: option.splits)

lemma save_more [simp]:
  "browsers (save_results_to_csv r p w) = browsers w"
  "to_csv_file (save_results_to_csv r p w) = to_csv_file w"
  by (simp_all add: save_results_to_csv_def tick_def split: option.splits)

lemma save_exists: "exists w q \<Longrightarrow> exists (save_results_to_csv r p w) q"
  by (auto simp: exists_def lookup_file_def save_results_to_csv_def tick_def update_conv'
      split: option.splits)

lemma save_lookup:
  "fault w (calls w) = None \<Longrightarrow>
     lookup_file (save_results_to_csv r p w) p = Some (to_csv_file w r)"
  by (simp add: lookup_file_def save_results_to_csv_def tick_def update_conv')



lemma listdir_eq:
  "listdir d w =
     (case fault w (calls w) of
        Some e \<Rightarrow> Inl e
      | None \<Rightarrow> Inr (map fst (dirs w (dir_key d))), tick w)"
  by (simp add: listdir_def split: option.splits)

lemma send_fields [simp]:
  "config_file (send_email_notification s b atts w) = config_file w"
  "fault (send_email_notification s b atts w) = fault w"
  "page (send_email_notification s b atts w) = page w"
  "now (send_email_notification s b atts w) = now w"
  "dirs (send_email_notification s b atts w) = dirs w"
  by (simp_all add: send_email_notification_def Let_def tick_def split: option.splits)

lemma send_more [simp]:
  "browsers (send_email_notification s b atts w) = browsers w"
  "to_csv_file (send_email_notification s b atts w) = to_csv_file w"
  by (simp_all add: send_email_notification_def Let_def tick_def split: option.splits)

lemma send_log:
  "\<exists>evs. log (send_email_notification s b atts w) = log w @ Notify s b atts # evs
        \<and> (\<forall>e \<in> set evs. \<not> is_notify e \<and> \<not> is_fetch e \<and> \<not> is_browser e)"
  by (simp add: send_email_notification_def Let_def tick_def split: option.splits)

lemma close_fields [simp]:
  "log (close w) = log w @ [Quit]" "config_file (close w) = config_file w"
  "dirs (close w) = dirs w"
  by (simp_all add: close_def tick_def split: option.splits)

lemma close_browsers:
  "browsers (close w) = (case fault w (calls w) of None \<Rightarrow> browsers w - 1 | Some e \<Rightarrow> browsers w)"
  by (simp add: close_def tick_def split: option.splits)

section \<open>One search of a run\<close>

lemma lookup_file_search [simp]:
  "lookup_file (snd (search cat c s t w)) p = lookup_file w p"
  by (simp add: lookup_file_def)

lemma exists_search [simp]: "exists (snd (search cat c s t w)) p = exists w p"
  by (simp add: exists_def)

lemma world_after_fields [simp]:
  "log (world_after cat od ts f w) = log w @ [fetch_of cat f]"
  "config_file (world_after cat od ts f w) = config_file w"
  "fault (world_after cat od ts f w) = fault w"
  "page (world_after cat od ts f w) = page w"
  "now (world_after cat od ts f w) = now w"
  by (simp_all add: world_after_def Let_def fetch_of_def)

lemma world_after_more [simp]:
  "browsers (world_after cat od ts f w) = browsers w"
  "to_csv_file (world_after cat od ts f w) = to_csv_file w"
  by (simp_all add: world_after_def Let_def)

lemma world_after_exists: "exists w p \<Longrightarrow> exists (world_after cat od ts f w) p"
  by (auto simp: world_after_def Let_def intro!: save_exists)


lemma process_filter_empty:
  "df_empty (fst (search cat (country f) (status f) (sector f) w)) \<Longrightarrow>
     process_filter cat od ts f a w = (Inr a, snd (search cat (country f) (status f) (sector f) w))"
  by (simp add: process_filter_def Let_def case_prod_beta)

lemma process_filter_nonempty:
  assumes "\<not> df_empty (fst (search cat (country f) (status f) (sector f) w))"
  shows "process_filter cat od ts f a w =
     (let results = fst (search cat (country f) (status f) (sector f) w);
          w2 = save_results_to_csv results (output_file_of cat od ts f)
                 (snd (search cat (country f) (status f) (sector f) w));
          a1 = a\<lparr>attachments := attachments a @ [output_file_of cat od ts f]\<rparr>
      in case fault w2 (calls w2) of
           Some e \<Rightarrow> (Inl e, tick w2)
         | None \<Rightarrow>
            (case find_previous_file (prefix_of cat f) (basename (output_file_of cat od ts f))
                    (map fst (dirs w2 (dir_key od))) of
               Some previous_file \<Rightarrow>
                 (let new_items = compare_with_previous results (join od previous_file) (tick w2)
                  in if \<not> df_empty new_items then
                       (Inr (a1\<lparr>new_items_found := True,
                            notification_body := notification_body a1 @
                              [''Found '' @ str_nat (len new_items) @ '' new '' @ kind cat
                                 @ '' for '' @ (case name f of None \<Rightarrow> ''unnamed'' | Some n \<Rightarrow> n)
                                 @ '':'']
                              @ map (\<lambda>r. ''- '' @ title_str r) (rows new_items) @ [[]]\<rparr>), tick w2)
                     else (Inr a1, tick w2))
             | None \<Rightarrow>
                 (Inr (a1\<lparr>new_items_found := True,
                      notification_body := notification_body a1 @
                        [''Found '' @ str_nat (len results) @ '' '' @ kind cat @ '' for ''
                           @ (case name f of None \<Rightarrow> ''unnamed'' | Some n \<Rightarrow> n)
                           @ '' (first run)'', []]\<rparr>), tick w2)))"
  using assms
  by (simp add: process_filter_def Let_def case_prod_beta listdir_eq output_file_of_def
      prefix_of_def split: option.splits)

lemma process_filter_snd:
  "snd (process_filter cat od ts f a w) = world_after cat od ts f w"
proof (cases "df_empty (fst (search cat (country f) (status f) (sector f) w))")
  case True
  then show ?thesis by (simp add: process_filter_empty world_after_def)
next
  case False
  then show ?thesis
    by (simp add: process_filter_nonempty world_after_def Let_def split: option.splits)
qed

lemma compare_empty_iff:
  "\<not> df_empty cur \<Longrightarrow>
     df_empty (compare_with_previous cur p w) \<longleftrightarrow> rows (compare_with_previous cur p w) = []"
  by (auto simp: compare_with_previous_def compare_try_def df_empty_def DataFrame_def Let_def
      split: sum.splits)

lemma new_records_empty:
  "df_empty (fst (search cat (country f) (status f) (sector f) w)) \<Longrightarrow>
     new_records cat od ts f w = []"
  by (simp add: new_records_def Let_def)

lemma process_filter_found:
  assumes "process_filter cat od ts f a w = (Inr a', w')"
  shows "new_items_found a' = (new_items_found a \<or> new_records cat od ts f w \<noteq> [])"
proof (cases "df_empty (fst (search cat (country f) (status f) (sector f) w))")
  case True
  with assms show ?thesis
    by (auto simp: process_filter_empty new_records_empty)
next
  case False
  then have rows: "rows (fst (search cat (country f) (status f) (sector f) w)) \<noteq> []"
    by (simp add: df_empty_def)
  from assms show ?thesis
    using compare_empty_iff [OF False] rows False
    by (auto simp: process_filter_nonempty [OF False] new_records_def resolved_previous_def
        world_after_def Let_def split: option.splits if_splits)
qed

section \<open>The loops\<close>

lemma process_filters_snd:
  "process_filters cat od ts fs a w = (Inr a', w') \<Longrightarrow>
     w' = foldl (\<lambda>w l. world_after (fst l) od ts (snd l) w) w (map (Pair cat) fs)"
proof (induction fs arbitrary: a w)
  case Nil
  then show ?case by simp
next
  case (Cons f fs)
  from Cons.prems obtain a1 w1 where
    step: "process_filter cat od ts f a w = (Inr a1, w1)"
    and rest: "process_filters cat od ts fs a1 w1 = (Inr a', w')"
    by (auto split: prod.splits sum.splits)
  from step have "w1 = world_after cat od ts f w"
    using process_filter_snd [of cat od ts f a w] by simp
  with Cons.IH [OF rest] show ?case by simp
qed

lemma yields_append:
  "yields od ts (xs @ ys) w =
     yields od ts xs w @ yields od ts ys (foldl (\<lambda>w l. world_after (fst l) od ts (snd l) w) w xs)"
  by (induction xs arbitrary: w) simp_all

lemma process_filters_found:
  "process_filters cat od ts fs a w = (Inr a', w') \<Longrightarrow>
     new_items_found a' = (new_items_found a \<or> concat (yields od ts (map (Pair cat) fs) w) \<noteq> [])"
proof (induction fs arbitrary: a w)
  case Nil
  then show ?case by simp
next
  case (Cons f fs)
  from Cons.prems obtain a1 w1 where
    step: "process_filter cat od ts f a w = (Inr a1, w1)"
    and rest: "process_filters cat od ts fs a1 w1 = (Inr a', w')"
    by (auto split: prod.splits sum.splits)
  from step have w1: "w1 = world_after cat od ts f w"
    using process_filter_snd [of cat od ts f a w] by simp
  from process_filter_found [OF step] Cons.IH [OF rest] w1 show ?case
    by auto
qed

text \<open>Whatever the outcome, the loop logs the searches of a prefix of the filters, and of
  all of them when it ends normally; it leaves the configuration and the oracles alone and
  removes no file.\<close>

lemma process_filters_log:
  "\<exists>k \<le> length fs. log (snd (process_filters cat od ts fs a w))
       = log w @ map (fetch_of cat) (take k fs)
     \<and> (\<forall>a'. fst (process_filters cat od ts fs a w) = Inr a' \<longrightarrow> k = length fs)"
proof (induction fs arbitrary: a w)
  case Nil
  then show ?case by simp
next
  case (Cons f fs)
  have w1: "log (snd (process_filter cat od ts f a w)) = log w @ [fetch_of cat f]"
    by (simp add: process_filter_snd)
  show ?case
  proof (cases "process_filter cat od ts f a w")
    case (Pair r w1')
    show ?thesis
    proof (cases r)
      case (Inl e)
      with Pair w1 show ?thesis
        by (intro exI [of _ 1]) simp
    next
      case (Inr a1)
      from Cons.IH [of a1 w1'] obtain k where
        k: "k \<le> length fs"
           "log (snd (process_filters cat od ts fs a1 w1')) = log w1' @ map (fetch_of cat) (take k fs)"
           "\<forall>a'. fst (process_filters cat od ts fs a1 w1') = Inr a' \<longrightarrow> k = length fs"
        by blast
      with Pair Inr w1 show ?thesis
        by (intro exI [of _ "Suc k"]) simp
    qed
  qed
qed

lemma process_filters_frame:
  "config_file (snd (process_filters cat od ts fs a w)) = config_file w
   \<and> fault (snd (process_filters cat od ts fs a w)) = fault w
   \<and> page (snd (process_filters cat od ts fs a w)) = page w
   \<and> now (snd (process_filters cat od ts fs a w)) = now w"
proof (induction fs arbitrary: a w)
  case Nil
  then show ?case by simp
next
  case (Cons f fs)
  show ?case
  proof (cases "process_filter cat od ts f a w")
    case (Pair r w1)
    then have "w1 = world_after cat od ts f w"
      using process_filter_snd [of cat od ts f a w] by simp
    with Pair Cons.IH show ?thesis
      by (cases r) simp_all
  qed
qed

lemma process_filters_exists:
  "exists w p \<Longrightarrow> exists (snd (process_filters cat od ts fs a w)) p"
proof (induction fs arbitrary: a w)
  case Nil
  then show ?case by simp
next
  case (Cons f fs)
  show ?case
  proof (cases "process_filter cat od ts f a w")
    case (Pair r w1)
    then have "w1 = world_after cat od ts f w"
      using process_filter_snd [of cat od ts f a w] by simp
    with Pair Cons show ?thesis
      by (cases r) (simp_all add: world_after_exists)
  qed
qed

section \<open>The try of run\_job\<close>

text \<open>When the \<^verbatim>\<open>try\<close> ends normally every lineage was searched, in the order of the
  configuration, and the flag says whether one of them yields new records; when an
  exception leaves it, a prefix of the lineages was searched and no notification call
  was made.\<close>

lemma fetch_props [simp]:
  "is_fetch (fetch_of cat f)" "\<not> is_notify (fetch_of cat f)" "\<not> is_browser (fetch_of cat f)"
  by (simp_all add: fetch_of_def)

lemma new_events_append [simp]: "log w' = log w @ evs \<Longrightarrow> new_events w w' = evs"
  by (simp add: new_events_def)

lemma run_try_Inr:
  assumes "run_try c od ts w = (Inr a, w')"
  shows "\<exists>w2. w' = (if new_items_found a then
                    send_email_notification ''ADB Monitoring Update - New Items Found''
                      (join_lines (notification_body a)) (attachments a) w2
                  else w2)
          \<and> log w2 = log w @ map (\<lambda>l. fetch_of (fst l) (snd l)) (lineages c)
          \<and> w2 = foldl (\<lambda>w l. world_after (fst l) od ts (snd l) w) w (lineages c)"
    and "new_items_found a = (concat (yields od ts (lineages c) w) \<noteq> [])"
proof -
  from assms obtain a1 w1 w2 where
    t: "process_filters Tenders od ts (tenders c)
          \<lparr>notification_body = [], attachments = [], new_items_found = False\<rparr> w = (Inr a1, w1)"
    and p: "process_filters Projects od ts (projects c) a1 w1 = (Inr a, w2)"
    and w': "w' = (if new_items_found a then
                    send_email_notification ''ADB Monitoring Update - New Items Found''
                      (join_lines (notification_body a)) (attachments a) w2
                  else w2)"
    by (auto simp: run_try_def split: prod.splits sum.splits)
  note w1 = process_filters_snd [OF t]
  note w2 = process_filters_snd [OF p]
  from process_filters_log [of "tenders c" Tenders od ts
      "\<lparr>notification_body = [], attachments = [], new_items_found = False\<rparr>" w] t
  have l1: "log w1 = log w @ map (fetch_of Tenders) (tenders c)" by auto
  from process_filters_log [of "projects c" Projects od ts a1 w1] p
  have l2: "log w2 = log w1 @ map (fetch_of Projects) (projects c)" by auto
  have "log w2 = log w @ map (\<lambda>l. fetch_of (fst l) (snd l)) (lineages c)"
    using l1 l2 by (simp add: lineages_def comp_def)
  moreover have "w2 = foldl (\<lambda>w l. world_after (fst l) od ts (snd l) w) w (lineages c)"
    using w1 w2 by (simp add: lineages_def)
  ultimately show "\<exists>w2. w' = (if new_items_found a then
                    send_email_notification ''ADB Monitoring Update - New Items Found''
                      (join_lines (notification_body a)) (attachments a) w2
                  else w2)
          \<and> log w2 = log w @ map (\<lambda>l. fetch_of (fst l) (snd l)) (lineages c)
          \<and> w2 = foldl (\<lambda>w l. world_after (fst l) od ts (snd l) w) w (lineages c)"
    using w' by blast
  from process_filters_found [OF t] process_filters_found [OF p] w1
  show "new_items_found a = (concat (yields od ts (lineages c) w) \<noteq> [])"
    by (simp add: lineages_def yields_append)
qed

lemma run_try_Inl:
  assumes "run_try c od ts w = (Inl e, w')"
  shows "\<exists>k \<le> length (lineages c).
           log w' = log w @ map (\<lambda>l. fetch_of (fst l) (snd l)) (take k (lineages c))"
proof (cases "process_filters Tenders od ts (tenders c)
          \<lparr>notification_body = [], attachments = [], new_items_found = False\<rparr> w")
  case (Pair r w1)
  from process_filters_log [of "tenders c" Tenders od ts
      "\<lparr>notification_body = [], attachments = [], new_items_found = False\<rparr>" w] Pair
  obtain k where k: "k \<le> length (tenders c)"
      "log w1 = log w @ map (fetch_of Tenders) (take k (tenders c))"
      "\<forall>a'. r = Inr a' \<longrightarrow> k = length (tenders c)"
    by auto
  show ?thesis
  proof (cases r)
    case (Inl e1)
    with Pair assms have "w' = w1" by (simp add: run_try_def)
    with k show ?thesis
      by (intro exI [of _ k]) (simp add: lineages_def take_map comp_def)
  next
    case (Inr a1)
    with k have l1: "log w1 = log w @ map (fetch_of Tenders) (tenders c)" by simp
    from Pair Inr assms obtain w2 where
      p: "process_filters Projects od ts (projects c) a1 w1 = (Inl e, w2)" and "w' = w2"
      by (auto simp: run_try_def split: prod.splits sum.splits)
    from process_filters_log [of "projects c" Projects od ts a1 w1] p
    obtain j where j: "j \<le> length (projects c)"
      "log w2 = log w1 @ map (fetch_of Projects) (take j (projects c))"
      by auto
    with l1 \<open>w' = w2\<close> show ?thesis
      by (intro exI [of _ "length (tenders c) + j"]) (simp add: lineages_def take_map comp_def)
  qed
qed

lemma run_try_frame:
  "config_file (snd (run_try c od ts w)) = config_file w"
  "exists w p \<Longrightarrow> exists (snd (run_try c od ts w)) p"
proof -
  let ?a0 = "\<lparr>notification_body = [], attachments = [], new_items_found = False\<rparr>"
  obtain r1 w1 where t: "process_filters Tenders od ts (tenders c) ?a0 w = (r1, w1)"
    by (cases "process_filters Tenders od ts (tenders c) ?a0 w")
  have f1: "config_file w1 = config_file w" "exists w p \<Longrightarrow> exists w1 p"
    using process_filters_frame [of Tenders od ts "tenders c" ?a0 w]
      process_filters_exists [of w p Tenders od ts "tenders c" ?a0] t by simp_all
  show "config_file (snd (run_try c od ts w)) = config_file w"
    "exists w p \<Longrightarrow> exists (snd (run_try c od ts w)) p"
  proof (atomize (full), cases r1)
    case (Inl e)
    with t f1 show "(config_file (snd (run_try c od ts w)) = config_file w) \<and>
      (exists w p \<longrightarrow> exists (snd (run_try c od ts w)) p)"
      by (simp add: run_try_def)
  next
    case (Inr a1)
    obtain r2 w2 where p: "process_filters Projects od ts (projects c) a1 w1 = (r2, w2)"
      by (cases "process_filters Projects od ts (projects c) a1 w1")
    have f2: "config_file w2 = config_file w1" "exists w1 p \<Longrightarrow> exists w2 p"
      using process_filters_frame [of Projects od ts "projects c" a1 w1]
        process_filters_exists [of w1 p Projects od ts "projects c" a1] p by simp_all
    with Inr t p f1 show "(config_file (snd (run_try c od ts w)) = config_file w) \<and>
      (exists w p \<longrightarrow> exists (snd (run_try c od ts w)) p)"
      by (cases r2) (simp_all add: run_try_def exists_def lookup_file_def)
  qed
qed

section \<open>Lemmas about run\_job\<close>

lemma makedirs_fields [simp]:
  "log (snd (makedirs d w)) = log w" "config_file (snd (makedirs d w)) = config_file w"
  "dirs (snd (makedirs d w)) = dirs w" "now (snd (makedirs d w)) = now w"
  by (simp_all add: makedirs_def)

lemma ADBScraper_fields [simp]:
  "config_file (snd (ADBScraper w)) = config_file w"
  "dirs (snd (ADBScraper w)) = dirs w" "now (snd (ADBScraper w)) = now w"
  "log (snd (ADBScraper w)) = (if fst (ADBScraper w) = None then log w @ [Init] else log w)"
  by (simp_all add: ADBScraper_def split: option.splits)

lemma try_start_fields [simp]:
  "config_file (try_start w) = config_file w" "dirs (try_start w) = dirs w"
  "browser_started w \<Longrightarrow> log (try_start w) = log w @ [Init]"
  by (simp_all add: try_start_def browser_started_def)

lemma run_job_unfold:
  "run_job w =
     (let m = makedirs (output_dir (load_config w)) w; s = ADBScraper (snd m)
      in case fst m of
           Some e \<Rightarrow> (Some e, snd m)
         | None \<Rightarrow>
            (case fst s of
               Some e \<Rightarrow> (Some e, snd s)
             | None \<Rightarrow>
                (None, close (case try_result w of
                   (Inl e, w3) \<Rightarrow>
                     send_email_notification ''ADB Monitoring Error''
                       (''An error occurred while running the ADB monitoring job:''
                          @ [CHR 0x0A, CHR 0x0A] @ str e) [] w3
                 | (Inr a, w3) \<Rightarrow> w3))))"
  by (simp add: run_job_def try_result_def try_start_def Let_def case_prod_beta
      split: option.splits sum.splits)

lemma run_job_started:
  "browser_started w \<Longrightarrow>
     run_job w =
       (None, close (case try_result w of
          (Inl e, w3) \<Rightarrow>
            send_email_notification ''ADB Monitoring Error''
              (''An error occurred while running the ADB monitoring job:''
                 @ [CHR 0x0A, CHR 0x0A] @ str e) [] w3
        | (Inr a, w3) \<Rightarrow> w3))"
  by (simp add: run_job_unfold browser_started_def Let_def)

lemma run_job_not_started:
  "\<not> browser_started w \<Longrightarrow> fst (run_job w) \<noteq> None \<and> log (snd (run_job w)) = log w"
  by (auto simp: run_job_unfold browser_started_def Let_def split: option.splits)

lemma try_result_events:
  assumes "browser_started w"
  shows "\<exists>evs. log (snd (try_result w)) = log w @ Init # evs
           \<and> filter is_browser evs = []
           \<and> (\<forall>e. fst (try_result w) = Inl e \<longrightarrow> filter is_notify evs = [])"
proof (cases "try_result w")
  case (Pair r w3)
  then have t: "run_try (load_config w) (output_dir (load_config w)) (now w) (try_start w)
      = (r, w3)"
    by (simp add: try_result_def)
  show ?thesis
  proof (cases r)
    case (Inl e)
    from run_try_Inl [OF t [unfolded Inl]] obtain k where
      "log w3 = log (try_start w)
         @ map (\<lambda>l. fetch_of (fst l) (snd l)) (take k (lineages (load_config w)))"
      by blast
    with Pair Inl assms show ?thesis
      by (auto simp: filter_empty_conv)
  next
    case (Inr a)
    from run_try_Inr(1) [OF t [unfolded Inr]] obtain w2 where
      w3: "w3 = (if new_items_found a then
                   send_email_notification ''ADB Monitoring Update - New Items Found''
                     (join_lines (notification_body a)) (attachments a) w2
                 else w2)"
      and l2: "log w2 = log (try_start w)
                 @ map (\<lambda>l. fetch_of (fst l) (snd l)) (lineages (load_config w))"
      by blast
    from send_log [of "''ADB Monitoring Update - New Items Found''"
        "join_lines (notification_body a)" "attachments a" w2]
    obtain evs where evs:
      "log (send_email_notification ''ADB Monitoring Update - New Items Found''
              (join_lines (notification_body a)) (attachments a) w2)
         = log w2 @ Notify ''ADB Monitoring Update - New Items Found''
                  (join_lines (notification_body a)) (attachments a) # evs"
      "\<forall>e \<in> set evs. \<not> is_notify e \<and> \<not> is_fetch e \<and> \<not> is_browser e"
      by blast
    show ?thesis
    proof (cases "new_items_found a")
      case True
      with Pair Inr assms w3 l2 evs show ?thesis
        by (auto simp: filter_empty_conv)
    next
      case False
      with Pair Inr assms w3 l2 show ?thesis
        by (auto simp: filter_empty_conv)
    qed
  qed
qed

lemma try_result_frame:
  "config_file (snd (try_result w)) = config_file w"
  "exists w p \<Longrightarrow> exists (snd (try_result w)) p"
proof -
  show "config_file (snd (try_result w)) = config_file w"
    by (simp add: try_result_def run_try_frame(1))
  assume "exists w p"
  then have "exists (try_start w) p"
    by (simp add: exists_def lookup_file_def)
  then show "exists (snd (try_result w)) p"
    unfolding try_result_def by (rule run_try_frame(2))
qed

lemma exists_log_update [simp]: "exists (w\<lparr>log := l\<rparr>) = exists w"
  by (simp add: fun_eq_iff exists_def lookup_file_def)

lemma load_config_cong: "config_file w' = config_file w \<Longrightarrow> load_config w' = load_config w"
  by (simp add: load_config_def)

lemma run_job_config [simp]: "config_file (snd (run_job w)) = config_file w"
proof (cases "browser_started w")
  case True
  then show ?thesis
    using try_result_frame(1) [of w]
    by (cases "try_result w") (auto simp: run_job_started split: sum.splits)
next
  case False
  then show ?thesis
    by (auto simp: run_job_unfold Let_def browser_started_def split: option.splits)
qed

lemma schedule_loop_config:
  "\<forall>s \<in> set steps. \<exists>t. s = Due t \<Longrightarrow> config_file (snd (schedule_loop steps w)) = config_file w"
proof (induction steps arbitrary: w)
  case Nil
  then show ?case by simp
next
  case (Cons s steps)
  then obtain t where s: "s = Due t" by auto
  have c: "config_file (snd (run_job (w\<lparr>now := t\<rparr>))) = config_file w"
    by simp
  show ?case
  proof (cases "run_job (w\<lparr>now := t\<rparr>)")
    case (Pair r w1)
    with c have "config_file w1 = config_file w" by simp
    with Pair s Cons show ?thesis
      by (cases r) simp_all
  qed
qed

lemma setup_schedule_startup:
  "setup_schedule (if config_file w = None then w\<lparr>config_file := Some default_config\<rparr> else w)
     = setup_schedule w"
  by (simp add: setup_schedule_def load_config_def)

lemma main_fst: "fst (main steps w) = setup_schedule w"
proof -
  define w0 where
    "w0 = (if config_file w = None then w\<lparr>config_file := Some default_config\<rparr> else w)"
  have "fst (main steps w) = setup_schedule w0"
  proof (cases "setup_schedule w0")
    case (Inl e)
    then show ?thesis
      by (simp add: main_def Let_def w0_def [symmetric])
  next
    case (Inr j)
    show ?thesis
    proof (cases "run_job w0")
      case (Pair r w1)
      with Inr show ?thesis
        by (cases r) (simp_all add: main_def Let_def w0_def [symmetric])
    qed
  qed
  then show ?thesis
    by (simp only: w0_def setup_schedule_startup)
qed

lemma run_job_fetches:
  assumes "browser_started w" and "fst (try_result w) = Inr a"
  shows "filter is_fetch (new_events w (snd (run_job w)))
         = map (\<lambda>l. fetch_of (fst l) (snd l)) (lineages (load_config w))"
proof -
  obtain w3 where r: "try_result w = (Inr a, w3)"
    using assms(2) by (cases "try_result w") simp
  then have t: "run_try (load_config w) (output_dir (load_config w)) (now w) (try_start w)
      = (Inr a, w3)"
    by (simp add: try_result_def)
  from run_try_Inr(1) [OF t] obtain w2 where
    w3: "w3 = (if new_items_found a then
                 send_email_notification ''ADB Monitoring Update - New Items Found''
                   (join_lines (notification_body a)) (attachments a) w2
               else w2)"
    and l2: "log w2 = log (try_start w) @ map (\<lambda>l. fetch_of (fst l) (snd l)) (lineages (load_config w))"
    by blast
  from send_log [of "''ADB Monitoring Update - New Items Found''"
        "join_lines (notification_body a)" "attachments a" w2]
  obtain evs where evs:
      "log (send_email_notification ''ADB Monitoring Update - New Items Found''
              (join_lines (notification_body a)) (attachments a) w2)
         = log w2 @ Notify ''ADB Monitoring Update - New Items Found''
                  (join_lines (notification_body a)) (attachments a) # evs"
      "\<forall>e \<in> set evs. \<not> is_notify e \<and> \<not> is_fetch e \<and> \<not> is_browser e"
    by blast
  have job: "snd (run_job w) = close w3"
    using assms(1) r by (simp add: run_job_started)
  have all: "filter is_fetch (map (\<lambda>l. fetch_of (fst l) (snd l)) ls)
       = map (\<lambda>l. fetch_of (fst l) (snd l)) ls" for ls
    by (induction ls) simp_all
  show ?thesis
  proof (cases "new_items_found a")
    case True
    with job w3 l2 evs assms(1) have "new_events w (snd (run_job w)) =
        Init # map (\<lambda>l. fetch_of (fst l) (snd l)) (lineages (load_config w))
          @ Notify ''ADB Monitoring Update - New Items Found''
              (join_lines (notification_body a)) (attachments a) # evs @ [Quit]"
      by simp
    moreover have "filter is_fetch evs = []"
      using evs(2) by (simp add: filter_empty_conv)
    ultimately show ?thesis by (simp add: all)
  next
    case False
    with job w3 l2 assms(1) have "new_events w (snd (run_job w)) =
        Init # map (\<lambda>l. fetch_of (fst l) (snd l)) (lineages (load_config w)) @ [Quit]"
      by simp
    then show ?thesis by (simp add: all)
  qed
qed

section \<open>What the notification carries\<close>

lemma reported_mono:
  assumes "reported cat od ts f w a"
    and "set (notification_body a) \<subseteq> set (notification_body a')"
    and "set (attachments a) \<subseteq> set (attachments a')"
  shows "reported cat od ts f w a'"
  using assms by (auto simp: reported_def split: option.splits)

lemma process_filter_reported:
  assumes "process_filter cat od ts f a w = (Inr a', w')"
  shows "reported cat od ts f w a'
       \<and> set (notification_body a) \<subseteq> set (notification_body a')
       \<and> set (attachments a) \<subseteq> set (attachments a')"
proof (cases "df_empty (fst (search cat (country f) (status f) (sector f) w))")
  case True
  with assms show ?thesis
    by (auto simp: process_filter_empty new_records_empty reported_def split: option.splits)
next
  case False
  then have rows: "rows (fst (search cat (country f) (status f) (sector f) w)) \<noteq> []"
    by (simp add: df_empty_def)
  from assms show ?thesis
    using compare_empty_iff [OF False] rows False
    by (auto simp: process_filter_nonempty [OF False] new_records_def resolved_previous_def
        reported_def world_after_def Let_def len_def split: option.splits if_splits)
qed

lemma process_filters_reported:
  "process_filters cat od ts fs a w = (Inr a', w') \<Longrightarrow>
     (\<forall>lw \<in> set (lineage_worlds od ts (map (Pair cat) fs) w).
        reported (fst (fst lw)) od ts (snd (fst lw)) (snd lw) a')
     \<and> set (notification_body a) \<subseteq> set (notification_body a')
     \<and> set (attachments a) \<subseteq> set (attachments a')"
proof (induction fs arbitrary: a w)
  case Nil
  then show ?case by simp
next
  case (Cons f fs)
  from Cons.prems obtain a1 w1 where
    step: "process_filter cat od ts f a w = (Inr a1, w1)"
    and rest: "process_filters cat od ts fs a1 w1 = (Inr a', w')"
    by (auto split: prod.splits sum.splits)
  from step have w1: "w1 = world_after cat od ts f w"
    using process_filter_snd [of cat od ts f a w] by simp
  note s = process_filter_reported [OF step]
  note r = Cons.IH [OF rest]
  from s r have "reported cat od ts f w a'"
    by (blast intro: reported_mono)
  with s r w1 show ?case
    by auto
qed

lemma lineage_worlds_append:
  "lineage_worlds od ts (xs @ ys) w =
     lineage_worlds od ts xs w
       @ lineage_worlds od ts ys (foldl (\<lambda>w l. world_after (fst l) od ts (snd l) w) w xs)"
  by (induction xs arbitrary: w) simp_all

lemma run_try_reported:
  assumes "run_try c od ts w = (Inr a, w')"
  shows "\<forall>lw \<in> set (lineage_worlds od ts (lineages c) w).
           reported (fst (fst lw)) od ts (snd (fst lw)) (snd lw) a"
proof -
  from assms obtain a1 w1 w2 where
    t: "process_filters Tenders od ts (tenders c)
          \<lparr>notification_body = [], attachments = [], new_items_found = False\<rparr> w = (Inr a1, w1)"
    and p: "process_filters Projects od ts (projects c) a1 w1 = (Inr a, w2)"
    by (auto simp: run_try_def split: prod.splits sum.splits)
  note w1 = process_filters_snd [OF t]
  note rt = process_filters_reported [OF t]
  note rp = process_filters_reported [OF p]
  have "\<forall>lw \<in> set (lineage_worlds od ts (map (Pair Tenders) (tenders c)) w).
           reported (fst (fst lw)) od ts (snd (fst lw)) (snd lw) a"
    using rt rp by (blast intro: reported_mono)
  with rp w1 show ?thesis
    by (auto simp: lineages_def lineage_worlds_append)
qed

section \<open>The searches and the files of a run\<close>



lemma process_filter_attachments:
  assumes "process_filter cat od ts f a w = (Inr a', w')"
  shows "set (attachments a') \<subseteq> insert (output_file_of cat od ts f) (set (attachments a))"
proof (cases "df_empty (fst (search cat (country f) (status f) (sector f) w))")
  case True
  with assms show ?thesis
    by (auto simp: process_filter_empty)
next
  case False
  from assms show ?thesis
    by (auto simp: process_filter_nonempty [OF False] Let_def split: option.splits if_splits)
qed

lemma process_filters_attachments:
  "process_filters cat od ts fs a w = (Inr a', w') \<Longrightarrow>
     set (attachments a') \<subseteq> set (attachments a) \<union> output_file_of cat od ts ` set fs"
proof (induction fs arbitrary: a w)
  case Nil
  then show ?case by simp
next
  case (Cons f fs)
  from Cons.prems obtain a1 w1 where
    step: "process_filter cat od ts f a w = (Inr a1, w1)"
    and rest: "process_filters cat od ts fs a1 w1 = (Inr a', w')"
    by (auto split: prod.splits sum.splits)
  from process_filter_attachments [OF step] Cons.IH [OF rest] show ?case
    by auto
qed

lemma run_try_attachments:
  assumes "run_try c od ts w = (Inr a, w')"
  shows "set (attachments a) \<subseteq> (\<lambda>l. output_file_of (fst l) od ts (snd l)) ` set (lineages c)"
proof -
  from assms obtain a1 w1 w2 where
    t: "process_filters Tenders od ts (tenders c)
          \<lparr>notification_body = [], attachments = [], new_items_found = False\<rparr> w = (Inr a1, w1)"
    and p: "process_filters Projects od ts (projects c) a1 w1 = (Inr a, w2)"
    by (auto simp: run_try_def split: prod.splits sum.splits)
  from process_filters_attachments [OF t] process_filters_attachments [OF p]
  show ?thesis
    by (auto simp: lineages_def image_Un image_image)
qed

section \<open>The browser sessions\<close>

lemma process_filters_browsers:
  "browsers (snd (process_filters cat od ts fs a w)) = browsers w"
proof (induction fs arbitrary: a w)
  case Nil
  then show ?case by simp
next
  case (Cons f fs)
  show ?case
  proof (cases "process_filter cat od ts f a w")
    case (Pair r w1)
    then have "w1 = world_after cat od ts f w"
      using process_filter_snd [of cat od ts f a w] by simp
    with Pair Cons.IH show ?thesis
      by (cases r) simp_all
  qed
qed

lemma run_try_more:
  "browsers (snd (run_try c od ts w)) = browsers w"
  "fault (snd (run_try c od ts w)) = fault w"
proof -
  let ?a0 = "\<lparr>notification_body = [], attachments = [], new_items_found = False\<rparr>"
  obtain r1 w1 where t: "process_filters Tenders od ts (tenders c) ?a0 w = (r1, w1)"
    by (cases "process_filters Tenders od ts (tenders c) ?a0 w")
  have f1: "browsers w1 = browsers w" "fault w1 = fault w"
    using process_filters_browsers [of Tenders od ts "tenders c" ?a0 w]
      process_filters_frame [of Tenders od ts "tenders c" ?a0 w] t by simp_all
  show "browsers (snd (run_try c od ts w)) = browsers w"
    "fault (snd (run_try c od ts w)) = fault w"
  proof (atomize (full), cases r1)
    case (Inl e)
    with t f1 show "browsers (snd (run_try c od ts w)) = browsers w
        \<and> fault (snd (run_try c od ts w)) = fault w"
      by (simp add: run_try_def)
  next
    case (Inr a1)
    obtain r2 w2 where p: "process_filters Projects od ts (projects c) a1 w1 = (r2, w2)"
      by (cases "process_filters Projects od ts (projects c) a1 w1")
    have f2: "browsers w2 = browsers w1" "fault w2 = fault w1"
      using process_filters_browsers [of Projects od ts "projects c" a1 w1]
        process_filters_frame [of Projects od ts "projects c" a1 w1] p by simp_all
    with Inr t p f1 show "browsers (snd (run_try c od ts w)) = browsers w
        \<and> fault (snd (run_try c od ts w)) = fault w"
      by (cases r2) (simp_all add: run_try_def)
  qed
qed

lemma try_start_more:
  "fault (try_start w) = fault w"
  "browser_started w \<Longrightarrow> browsers (try_start w) = Suc (browsers w)"
  by (auto simp: try_start_def browser_started_def makedirs_def ADBScraper_def tick_def
      split: option.splits if_splits)

lemma before_close_more:
  "fault (before_close w) = fault w"
  "browser_started w \<Longrightarrow> browsers (before_close w) = Suc (browsers w)"
proof -
  have f: "fault (snd (try_result w)) = fault w"
    by (simp add: try_result_def run_try_more(2) try_start_more(1))
  then show "fault (before_close w) = fault w"
    by (cases "try_result w") (auto simp: before_close_def split: sum.splits)
  assume s: "browser_started w"
  then have "browsers (snd (try_result w)) = Suc (browsers w)"
    by (simp add: try_result_def run_try_more(1) try_start_more(2))
  then show "browsers (before_close w) = Suc (browsers w)"
    by (cases "try_result w") (auto simp: before_close_def split: sum.splits)
qed

lemma run_job_before_close:
  "browser_started w \<Longrightarrow> run_job w = (None, close (before_close w))"
  by (simp add: run_job_started before_close_def)

lemma run_job_not_started_browsers:
  "\<not> browser_started w \<Longrightarrow> browsers (snd (run_job w)) = browsers w"
  by (auto simp: run_job_unfold browser_started_def Let_def makedirs_def ADBScraper_def tick_def
      split: option.splits if_splits)

section \<open>Properties of a run\<close>

text \<open>
  C3. The loop picks, among the candidates of the listing, one whose name is greatest once
  the prefix and \<^verbatim>\<open>.csv\<close> are removed (\<open>find_previous_greatest\<close>); the order of the
  listing decides only between candidates that are equal there
  (\<open>find_previous_order_independent\<close>). But a candidate is any other file that starts with
  the prefix of the search, whatever its timestamp and whichever search has written it.
  With a second search of the category named \<^verbatim>\<open>india_water\<close>, its files start with the
  prefix \<^verbatim>\<open>tenders_india_\<close> of the search \<^verbatim>\<open>india\<close> too, and what follows the prefix,
  \<^verbatim>\<open>water_20240101_090000\<close>, is greater than every timestamp. At day 3 the search \<^verbatim>\<open>india\<close> is compared with the snapshot
  of \<^verbatim>\<open>india_water\<close> of day 1 and not with its own snapshot of day 2: it reports the title
  Y, which its snapshot of day 2 already had.
\<close>

theorem prefix_collision_selects_other_lineage:
  "find_previous_file ''tenders_india_'' ''tenders_india_20240103_090000.csv''
       two_lineages_listing = Some ''tenders_india_water_20240101_090000.csv''
   \<and> filter is_notify (log (snd (run_job two_lineages_run))) =
       [Notify ''ADB Monitoring Update - New Items Found''
          (''Found 1 new tenders for india:'' @ [CHR 0x0A] @ ''- Y'' @ [CHR 0x0A])
          [''output/tenders_india_20240103_090000.csv'']]"
  by code_simp

text \<open>
  C4. In a run that gets through both loops (no exception leaves the \<^verbatim>\<open>try\<close>), exactly
  one call of \<open>send_email_notification\<close> is made when at least one lineage yields new
  records: its body are the lines accumulated over all lineages, its attachments the files
  written in this run. No call is made when no lineage yields a new record. What is
  accumulated carries the new records of every lineage (\<open>reported\<close>): the file of the
  lineage is attached, every new record found by comparison is listed by its title, and
  the records of a first run are announced by their number.
\<close>

theorem one_notification_per_run:
  assumes "browser_started w" and "fst (try_result w) = Inr a"
  shows "filter is_notify (new_events w (snd (run_job w))) =
           (if concat (yields (output_dir (load_config w)) (now w) (lineages (load_config w))
                        (try_start w)) \<noteq> []
            then [Notify ''ADB Monitoring Update - New Items Found''
                    (join_lines (notification_body a)) (attachments a)]
            else [])
         \<and> (\<forall>lw \<in> set (lineage_worlds (output_dir (load_config w)) (now w)
                           (lineages (load_config w)) (try_start w)).
               reported (fst (fst lw)) (output_dir (load_config w)) (now w) (snd (fst lw))
                 (snd lw) a)"
proof (rule conjI)
  obtain w3 where r: "try_result w = (Inr a, w3)"
    using assms(2) by (cases "try_result w") simp
  then have t: "run_try (load_config w) (output_dir (load_config w)) (now w) (try_start w)
      = (Inr a, w3)"
    by (simp add: try_result_def)
  from run_try_reported [OF t]
  show "\<forall>lw \<in> set (lineage_worlds (output_dir (load_config w)) (now w)
                           (lineages (load_config w)) (try_start w)).
               reported (fst (fst lw)) (output_dir (load_config w)) (now w) (snd (fst lw))
                 (snd lw) a" .
  from run_try_Inr(1) [OF t] obtain w2 where
    w3: "w3 = (if new_items_found a then
                 send_email_notification ''ADB Monitoring Update - New Items Found''
                   (join_lines (notification_body a)) (attachments a) w2
               else w2)"
    and l2: "log w2 = log (try_start w) @ map (\<lambda>l. fetch_of (fst l) (snd l)) (lineages (load_config w))"
    by blast
  note found = run_try_Inr(2) [OF t]
  have job: "snd (run_job w) = close w3"
    using assms(1) r by (simp add: run_job_started)
  show "filter is_notify (new_events w (snd (run_job w))) =
           (if concat (yields (output_dir (load_config w)) (now w) (lineages (load_config w))
                        (try_start w)) \<noteq> []
            then [Notify ''ADB Monitoring Update - New Items Found''
                    (join_lines (notification_body a)) (attachments a)]
            else [])"
  proof (cases "new_items_found a")
    case True
    from send_log [of "''ADB Monitoring Update - New Items Found''"
        "join_lines (notification_body a)" "attachments a" w2]
    obtain evs where
      "log w3 = log w2 @ Notify ''ADB Monitoring Update - New Items Found''
                  (join_lines (notification_body a)) (attachments a) # evs"
      "\<forall>e \<in> set evs. \<not> is_notify e \<and> \<not> is_fetch e \<and> \<not> is_browser e"
      using w3 True by auto
    then have "new_events w (snd (run_job w)) =
        Init # map (\<lambda>l. fetch_of (fst l) (snd l)) (lineages (load_config w))
          @ Notify ''ADB Monitoring Update - New Items Found''
              (join_lines (notification_body a)) (attachments a) # evs @ [Quit]"
      "filter is_notify evs = []"
      using job l2 assms(1) by (simp_all add: filter_empty_conv)
    with True found show ?thesis
      by (simp add: filter_empty_conv comp_def)
  next
    case False
    then have "new_events w (snd (run_job w)) =
        Init # map (\<lambda>l. fetch_of (fst l) (snd l)) (lineages (load_config w)) @ [Quit]"
      using job l2 w3 assms(1) by simp
    with False found show ?thesis
      by (simp add: filter_empty_conv comp_def)
  qed
qed

text \<open>
  The run of day 2 that finds X, Y and Z where day 1 had X and Y makes one call, listing Z;
  the run that finds X and Y again makes none.
\<close>

theorem one_notification_per_run_witness:
  "filter is_notify (new_events (day2_run [''X'', ''Y'', ''Z''])
       (snd (run_job (day2_run [''X'', ''Y'', ''Z'']))))
     = [Notify ''ADB Monitoring Update - New Items Found''
          (''Found 1 new tenders for a:'' @ [CHR 0x0A] @ ''- Z'' @ [CHR 0x0A])
          [''output/tenders_a_20240102_090000.csv'']]
   \<and> filter is_notify (new_events (day2_run [''X'', ''Y''])
       (snd (run_job (day2_run [''X'', ''Y''])))) = []
   \<and> reported Tenders ''output'' ''20240102_090000'' (example_filter ''a'' ''India'')
       (try_start (day2_run [''X'', ''Y'', ''Z'']))
       \<lparr>notification_body = [''Found 1 new tenders for a:'', ''- Z'', []],
        attachments = [''output/tenders_a_20240102_090000.csv''], new_items_found = True\<rparr>"
proof -
  let ?w = "day2_run [''X'', ''Y'', ''Z'']"
  let ?a = "\<lparr>notification_body = [''Found 1 new tenders for a:'', ''- Z'', []],
            attachments = [''output/tenders_a_20240102_090000.csv''], new_items_found = True\<rparr>"
  have s: "browser_started ?w" by code_simp
  have t: "fst (try_result ?w) = Inr ?a" by code_simp
  have y: "concat (yields (output_dir (load_config ?w)) (now ?w) (lineages (load_config ?w))
              (try_start ?w)) \<noteq> []"
    by code_simp
  let ?v = "day2_run [''X'', ''Y'']"
  let ?b = "\<lparr>notification_body = [], attachments = [''output/tenders_a_20240102_090000.csv''],
            new_items_found = False\<rparr>"
  have s': "browser_started ?v" by code_simp
  have t': "fst (try_result ?v) = Inr ?b" by code_simp
  have y': "concat (yields (output_dir (load_config ?v)) (now ?v) (lineages (load_config ?v))
              (try_start ?v)) = []"
    by code_simp
  have l: "lineage_worlds (output_dir (load_config ?w)) (now ?w) (lineages (load_config ?w))
              (try_start ?w) = [((Tenders, example_filter ''a'' ''India''), try_start ?w)]"
    by (simp add: lineages_def load_config_def day2_run_def example_world_def example_config_def)
  have o: "output_dir (load_config ?w) = ''output''" "now ?w = ''20240102_090000''"
    by (simp_all add: load_config_def day2_run_def example_world_def example_config_def
        default_config_def)
  from one_notification_per_run [OF s t] y one_notification_per_run [OF s' t'] y' l o
  show ?thesis by simp
qed




text \<open>
  C6. A snapshot that was persisted does not read back as it was written when its titles
  look like numbers: \<^verbatim>\<open>pd.read_csv\<close> infers a column of numbers, and no string of the
  current snapshot equals a number (the same happens to a title that is empty or an NA
  word, which reads back as a missing cell). The process below finds the titles 123 and
  456 at its first run and writes them; when the job falls due at day 2 the site lists the
  same two titles, and the run reports both as new. Only when the previous file parses to
  the very frame at hand is the result empty (\<open>compare_same_frame_empty\<close>).
\<close>

theorem numeric_titles_reported_again:
  "lookup_file (snd (run_job numeric_titles_world)) ''output/tenders_a_20240101_090000.csv''
     = Some (Csv \<lparr>columns = [''Title'', ''Link'', ''Status''],
                   rows = [[(''Title'', Num 123), (''Link'', Str ''https://www.adb.org/projects/123''),
                            (''Status'', Str ''Active'')],
                           [(''Title'', Num 456), (''Link'', Str ''https://www.adb.org/projects/456''),
                            (''Status'', Str ''Active'')]]\<rparr>)
   \<and> compare_with_previous (snapshot [''123'', ''456''])
       ''output/tenders_a_20240101_090000.csv'' (snd (run_job numeric_titles_world))
     = snapshot [''123'', ''456'']
   \<and> filter is_notify
       (new_events (snd (run_job numeric_titles_world))
          (snd (run_job ((snd (run_job numeric_titles_world))\<lparr>now := ''20240102_090000''\<rparr>))))
     = [Notify ''ADB Monitoring Update - New Items Found''
          (''Found 2 new tenders for a:'' @ [CHR 0x0A] @ ''- 123'' @ [CHR 0x0A] @ ''- 456''
             @ [CHR 0x0A])
          [''output/tenders_a_20240102_090000.csv'']]"
  by code_simp




text \<open>
  C8 as first stated (the session is released on every path) does not hold:
  \<^verbatim>\<open>ADBScraper.close\<close> catches the exception of \<^verbatim>\<open>driver.quit()\<close>, logs it and returns. In
  \<open>quit_fails_run\<close> the run ends normally, \<^verbatim>\<open>driver.quit()\<close> is called last and raises, and
  the session the run has started is still there when \<^verbatim>\<open>run_job\<close> has returned.
\<close>

theorem quit_fails_counterexample:
  "browser_started quit_fails_run
   \<and> fst (run_job quit_fails_run) = None
   \<and> log (snd (run_job quit_fails_run)) =
       [Init, Fetch Tenders (Some ''India'') (Some ''Active'') None,
        Notify ''ADB Monitoring Update - New Items Found''
          (''Found 2 tenders for a (first run)'' @ [CHR 0x0A])
          [''output/tenders_a_20240101_090000.csv''],
        Quit]
   \<and> fault quit_fails_run 5 = Some (WebDriverException ''chrome not reachable'')
   \<and> browsers quit_fails_run = 0
   \<and> browsers (snd (run_job quit_fails_run)) = 1"
  by code_simp

text \<open>
  C8, amended. When the browser was started, \<^verbatim>\<open>run_job\<close> returns normally, and its events
  are the start of the browser, events that neither start nor quit a browser, and last
  the call of \<^verbatim>\<open>driver.quit()\<close>: on the path where the \<^verbatim>\<open>try\<close> ends normally and on the path
  where an exception leaves it. When that call returns, the session is released: as many
  sessions are open after the run as before. When that call raises, the exception is
  swallowed and the session of the run stays open. When the browser was not started (the
  directory could not be created or the browser did not come up), the run has no event
  and no session is left.
\<close>

theorem browser_quit_on_every_path:
  "(browser_started w \<longrightarrow>
      fst (run_job w) = None
      \<and> (\<exists>evs. new_events w (snd (run_job w)) = Init # evs @ [Quit]
                \<and> filter is_browser evs = [])
      \<and> browsers (snd (run_job w)) =
          (case fault w (calls (before_close w)) of
             None \<Rightarrow> browsers w
           | Some e \<Rightarrow> Suc (browsers w)))
   \<and> (\<not> browser_started w \<longrightarrow>
        new_events w (snd (run_job w)) = [] \<and> browsers (snd (run_job w)) = browsers w)"
proof (intro conjI impI)
  assume s: "browser_started w"
  then show "fst (run_job w) = None"
    by (simp add: run_job_started)
  from s show "browsers (snd (run_job w)) =
          (case fault w (calls (before_close w)) of
             None \<Rightarrow> browsers w
           | Some e \<Rightarrow> Suc (browsers w))"
    by (simp add: run_job_before_close close_browsers before_close_more split: option.splits)
  from try_result_events [OF s] obtain evs where
    evs: "log (snd (try_result w)) = log w @ Init # evs" "filter is_browser evs = []"
    by blast
  show "\<exists>evs. new_events w (snd (run_job w)) = Init # evs @ [Quit] \<and> filter is_browser evs = []"
  proof (cases "try_result w")
    case (Pair r w3)
    show ?thesis
    proof (cases r)
      case (Inl e)
      from send_log [of "''ADB Monitoring Error''"
        "''An error occurred while running the ADB monitoring job:'' @ [CHR 0x0A, CHR 0x0A] @ str e"
        "[]" w3]
      obtain evs' where
        "log (send_email_notification ''ADB Monitoring Error''
           (''An error occurred while running the ADB monitoring job:'' @ [CHR 0x0A, CHR 0x0A] @ str e)
           [] w3) = log w3 @ Notify ''ADB Monitoring Error''
           (''An error occurred while running the ADB monitoring job:'' @ [CHR 0x0A, CHR 0x0A] @ str e)
           [] # evs'"
        "\<forall>e \<in> set evs'. \<not> is_notify e \<and> \<not> is_fetch e \<and> \<not> is_browser e"
        by blast
      with Pair Inl s evs show ?thesis
        by (auto simp: run_job_started filter_empty_conv)
    next
      case (Inr a)
      with Pair s evs show ?thesis
        by (simp add: run_job_started)
    qed
  qed
next
  assume n: "\<not> browser_started w"
  then show "new_events w (snd (run_job w)) = []"
    by (simp add: run_job_not_started new_events_def)
  from n show "browsers (snd (run_job w)) = browsers w"
    by (rule run_job_not_started_browsers)
qed

text \<open>
  The run in which listing the directory fails and the run that ends normally release the
  session they started; the run whose \<^verbatim>\<open>driver.quit()\<close> raises leaves one session open; the
  run whose browser does not come up has no event.
\<close>

theorem browser_quit_on_every_path_witness:
  "browser_started listing_error_run
   \<and> fst (try_result listing_error_run) = Inl (OSError ''[Errno 13] Permission denied'')
   \<and> fst (run_job listing_error_run) = None
   \<and> (\<exists>evs. new_events listing_error_run (snd (run_job listing_error_run)) = Init # evs @ [Quit]
             \<and> filter is_browser evs = [])
   \<and> browsers (snd (run_job listing_error_run)) = browsers listing_error_run
   \<and> browser_started startup_world
   \<and> fst (run_job startup_world) = None
   \<and> (\<exists>evs. new_events startup_world (snd (run_job startup_world)) = Init # evs @ [Quit]
             \<and> filter is_browser evs = [])
   \<and> browsers (snd (run_job startup_world)) = browsers startup_world
   \<and> browser_started quit_fails_run
   \<and> browsers (snd (run_job quit_fails_run)) = Suc (browsers quit_fails_run)
   \<and> \<not> browser_started browser_fails_run
   \<and> new_events browser_fails_run (snd (run_job browser_fails_run)) = []
   \<and> browsers (snd (run_job browser_fails_run)) = browsers browser_fails_run"
proof -
  have s: "browser_started listing_error_run" by code_simp
  have t: "fst (try_result listing_error_run) = Inl (OSError ''[Errno 13] Permission denied'')"
    by code_simp
  have q: "fault listing_error_run (calls (before_close listing_error_run)) = None" by code_simp
  have s': "browser_started startup_world" by code_simp
  have q': "fault startup_world (calls (before_close startup_world)) = None" by code_simp
  have s'': "browser_started quit_fails_run" by code_simp
  have q'': "fault quit_fails_run (calls (before_close quit_fails_run))
      = Some (WebDriverException ''chrome not reachable'')" by code_simp
  have n: "\<not> browser_started browser_fails_run" by code_simp
  from browser_quit_on_every_path [of listing_error_run]
    browser_quit_on_every_path [of startup_world]
    browser_quit_on_every_path [of quit_fails_run]
    browser_quit_on_every_path [of browser_fails_run] s t q s' q' s'' q'' n
  show ?thesis by simp
qed

text \<open>
  C9 as first stated (the configuration is loaded once and every run uses the values of
  startup) does not hold. \<^verbatim>\<open>run_job\<close> calls \<^verbatim>\<open>load_config\<close> at the
  start of every run. A process that starts with the search for India configured and
  whose \<^verbatim>\<open>config.json\<close> is rewritten to a search for Nepal before the job falls due
  searches India in its first run and Nepal in its second.
\<close>

theorem config_reread_counterexample:
  "load_config startup_world = example_config [example_filter ''a'' ''India'']
   \<and> filter is_fetch (log (snd (snd (main
        [Edit (Some (example_config [example_filter ''b'' ''Nepal''])), Due ''20240102_090000'']
        startup_world)))) =
       [Fetch Tenders (Some ''India'') (Some ''Active'') None,
        Fetch Tenders (Some ''Nepal'') (Some ''Active'') None]"
  by code_simp

text \<open>
  C9, amended. Only the schedule is read once: the job \<^verbatim>\<open>main\<close> registers is the one of the
  configuration at startup, whatever happens later. The filter lists and the output
  directory are read from \<^verbatim>\<open>config.json\<close> at the start of every run, the mail settings at
  every call of \<open>send_email_notification\<close>: a run that gets through its loops issues
  exactly the searches of the file as it is then and attaches only files in the output
  directory of the file as it is then, and a mail goes out with the settings of the file
  as it is then. A run does not change the file, so as long as nobody rewrites it every
  run and every notification uses the values of startup.
\<close>

theorem config_read_at_every_run:
  "fst (main steps w) = setup_schedule w
   \<and> (browser_started w \<and> fst (try_result w) = Inr a \<longrightarrow>
        filter is_fetch (new_events w (snd (run_job w)))
          = map (\<lambda>l. fetch_of (fst l) (snd l)) (lineages (load_config w))
        \<and> set (attachments a)
            \<subseteq> (\<lambda>l. output_file_of (fst l) (output_dir (load_config w)) (now w) (snd l))
                ` set (lineages (load_config w)))
   \<and> (enabled (email (load_config w)) \<and> fault w (calls w) = None \<longrightarrow>
        new_events w (send_email_notification subject body atts w)
          = [Notify subject body atts,
             Smtp (email (load_config w)) subject body (filter (exists w) atts)])
   \<and> config_file (snd (run_job w)) = config_file w
   \<and> ((\<forall>s \<in> set steps. \<exists>t. s = Due t) \<longrightarrow>
        load_config (snd (snd (main steps w))) = load_config w)"
proof (intro conjI impI)
  show "fst (main steps w) = setup_schedule w" by (rule main_fst)
  show "config_file (snd (run_job w)) = config_file w" by simp
next
  assume h: "browser_started w \<and> fst (try_result w) = Inr a"
  then show "filter is_fetch (new_events w (snd (run_job w)))
          = map (\<lambda>l. fetch_of (fst l) (snd l)) (lineages (load_config w))"
    using run_job_fetches by blast
  from h obtain w3 where "try_result w = (Inr a, w3)"
    by (cases "try_result w") simp
  then have "run_try (load_config w) (output_dir (load_config w)) (now w) (try_start w)
      = (Inr a, w3)"
    by (simp add: try_result_def)
  then show "set (attachments a)
            \<subseteq> (\<lambda>l. output_file_of (fst l) (output_dir (load_config w)) (now w) (snd l))
                ` set (lineages (load_config w))"
    by (rule run_try_attachments)
next
  assume "enabled (email (load_config w)) \<and> fault w (calls w) = None"
  then show "new_events w (send_email_notification subject body atts w)
          = [Notify subject body atts,
             Smtp (email (load_config w)) subject body (filter (exists w) atts)]"
    by (simp add: send_email_notification_def load_config_def Let_def tick_def new_events_def)
next
  let ?w0 = "if config_file w = None then w\<lparr>config_file := Some default_config\<rparr> else w"
  assume d: "\<forall>s \<in> set steps. \<exists>t. s = Due t"
  have l0: "load_config ?w0 = load_config w"
    by (simp add: load_config_def)
  have c1: "config_file (snd (run_job ?w0)) = config_file ?w0"
    by (rule run_job_config)
  define w0 where "w0 = ?w0"
  have "config_file (snd (snd (main steps w))) = config_file w0"
  proof (cases "setup_schedule w0")
    case (Inl e)
    then show ?thesis
      by (simp add: main_def Let_def w0_def [symmetric])
  next
    case (Inr j)
    show ?thesis
    proof (cases "run_job w0")
      case (Pair r w1)
      have "config_file (snd (run_job w0)) = config_file w0"
        by (rule run_job_config)
      with Pair have c: "config_file w1 = config_file w0" by simp
      show ?thesis
      proof (cases r)
        case None
        with Pair Inr c schedule_loop_config [OF d, of w1] show ?thesis
          by (simp add: main_def Let_def w0_def [symmetric])
      next
        case (Some e)
        with Pair Inr c show ?thesis
          by (simp add: main_def Let_def w0_def [symmetric])
      qed
    qed
  qed
  then have "config_file (snd (snd (main steps w))) = config_file ?w0"
    by (simp only: w0_def)
  then have "load_config (snd (snd (main steps w))) = load_config ?w0"
    by (rule load_config_cong)
  with l0 show "load_config (snd (snd (main steps w))) = load_config w" by simp
qed

theorem config_read_at_every_run_witness:
  "browser_started startup_world
   \<and> fst (main [Due ''20240102_090000''] startup_world) = Inr (Every_day ''09:00'')
   \<and> filter is_fetch (new_events startup_world (snd (run_job startup_world)))
       = [Fetch Tenders (Some ''India'') (Some ''Active'') None]
   \<and> load_config (snd (snd (main [Due ''20240102_090000''] startup_world)))
       = example_config [example_filter ''a'' ''India'']
   \<and> enabled (email (load_config mail_enabled_world))
   \<and> new_events mail_enabled_world
        (send_email_notification ''subject'' ''body''
           [''output/tenders_a_20240101_090000.csv'', ''output/missing.csv''] mail_enabled_world)
       = [Notify ''subject'' ''body''
            [''output/tenders_a_20240101_090000.csv'', ''output/missing.csv''],
          Smtp ((email default_config)\<lparr>enabled := True\<rparr>) ''subject'' ''body''
            [''output/tenders_a_20240101_090000.csv'']]"
proof -
  let ?a = "\<lparr>notification_body = [''Found 2 tenders for a (first run)'', []],
            attachments = [''output/tenders_a_20240101_090000.csv''], new_items_found = True\<rparr>"
  have s: "browser_started startup_world" by code_simp
  have t: "fst (try_result startup_world) = Inr ?a" by code_simp
  have j: "setup_schedule startup_world = Inr (Every_day ''09:00'')" by code_simp
  have l: "load_config startup_world = example_config [example_filter ''a'' ''India'']"
    by code_simp
  have f: "map (\<lambda>l. fetch_of (fst l) (snd l)) (lineages (load_config startup_world))
      = [Fetch Tenders (Some ''India'') (Some ''Active'') None]"
    by code_simp
  have m: "enabled (email (load_config mail_enabled_world))
      \<and> fault mail_enabled_world (calls mail_enabled_world) = None"
    by code_simp
  have e: "email (load_config mail_enabled_world) = (email default_config)\<lparr>enabled := True\<rparr>"
    by code_simp
  have x: "filter (exists mail_enabled_world)
        [''output/tenders_a_20240101_090000.csv'', ''output/missing.csv'']
      = [''output/tenders_a_20240101_090000.csv'']"
    by code_simp
  from config_read_at_every_run [where steps = "[Due ''20240102_090000'']"
       and w = startup_world and a = ?a]
    config_read_at_every_run [where steps = "[]" and w = mail_enabled_world
       and subject = "''subject''" and body = "''body''"
       and atts = "[''output/tenders_a_20240101_090000.csv'', ''output/missing.csv'']"]
    s t j l f m e x
  show ?thesis by simp
qed

end
